theory Spec2Isabelle
  imports
    Complex_Main
    "HOL-Library.AList"
    "HOL-Library.Char_ord"
    "HOL-Library.List_Lexorder"
    "HOL-Library.Product_Lexorder"
begin

section \<open>The websocket pub/sub hub of treadmill\<close>

text \<open>
  A shallow embedding of \<^verbatim>\<open>lib/python/treadmill/websocket/__init__.py\<close>: the class
  \<^verbatim>\<open>DirWatchPubSub\<close> and the handler class \<^verbatim>\<open>_WS\<close> built by \<^verbatim>\<open>make_handler\<close>.
  The module is Python 2 (\<^verbatim>\<open>StandardError\<close>, \<^verbatim>\<open>urlparse\<close>, \<^verbatim>\<open>viewkeys\<close>), and the
  model follows Python 2: \<^verbatim>\<open>IOError\<close> and \<^verbatim>\<open>OSError\<close> are different classes,
  \<^verbatim>\<open>os.stat\<close> raises the second and \<^verbatim>\<open>open\<close> the first.

  Every method mutates the hub, the handler objects or both, and may raise after it has
  mutated. A method is therefore a function from the state to a pair: the exception
  raised, if any, and the state left behind. Leading underscores of Python names are
  dropped (\<^verbatim>\<open>_notify\<close> is \<open>notify\<close>).
\<close>

subsection \<open>Exceptions\<close>

text \<open>
  The classes the module's \<^verbatim>\<open>except\<close> clauses tell apart. \<^verbatim>\<open>IOError\<close> and
  \<^verbatim>\<open>OSError\<close> carry their \<^verbatim>\<open>errno\<close>; the other constructors carry the class name.
  \<open>StandardError\<close> stands for every other subclass of \<^verbatim>\<open>StandardError\<close>
  (\<^verbatim>\<open>ValueError\<close>, \<^verbatim>\<open>KeyError\<close>, \<^verbatim>\<open>TypeError\<close>, ...), \<open>OtherException\<close> for a
  subclass of \<^verbatim>\<open>Exception\<close> that is not a \<^verbatim>\<open>StandardError\<close> (a user-defined error
  class, \<^verbatim>\<open>yaml.YAMLError\<close>, tornado's \<^verbatim>\<open>WebSocketClosedError\<close>), and
  \<open>BaseException\<close> for what only derives from \<^verbatim>\<open>BaseException\<close>
  (\<^verbatim>\<open>KeyboardInterrupt\<close>, \<^verbatim>\<open>SystemExit\<close>). The last field is \<^verbatim>\<open>str(err)\<close>.
\<close>

datatype exn =
    IOError int string
  | OSError int string
  | StandardError string string
  | OtherException string string
  | BaseException string string

definition ENOENT :: int where
  "ENOENT = 2"

definition EISDIR :: int where
  "EISDIR = 21"

fun is_StandardError :: "exn \<Rightarrow> bool" where
  "is_StandardError (IOError _ _) = True"
| "is_StandardError (OSError _ _) = True"
| "is_StandardError (StandardError _ _) = True"
| "is_StandardError (OtherException _ _) = False"
| "is_StandardError (BaseException _ _) = False"

fun is_Exception :: "exn \<Rightarrow> bool" where
  "is_Exception (BaseException _ _) = False"
| "is_Exception _ = True"

fun str_exn :: "exn \<Rightarrow> string" where
  "str_exn (IOError _ s) = s"
| "str_exn (OSError _ s) = s"
| "str_exn (StandardError _ s) = s"
| "str_exn (OtherException _ s) = s"
| "str_exn (BaseException _ s) = s"

fun type_name :: "exn \<Rightarrow> string" where
  "type_name (IOError _ _) = ''IOError''"
| "type_name (OSError _ _) = ''OSError''"
| "type_name (StandardError c _) = c"
| "type_name (OtherException c _) = c"
| "type_name (BaseException c _) = c"

definition WebSocketClosedError :: exn where
  "WebSocketClosedError = OtherException ''WebSocketClosedError'' []"

text \<open>A name between single quotes, as Python prints it in the text of an error.\<close>

definition quote :: "string \<Rightarrow> string" where
  "quote s = [CHR 0x27] @ s @ [CHR 0x27]"

subsection \<open>Paths: \<^verbatim>\<open>posixpath\<close>\<close>

definition basename :: "string \<Rightarrow> string" where
  "basename p = rev (takeWhile (\<lambda>c. c \<noteq> CHR ''/'') (rev p))"

text \<open>\<^verbatim>\<open>p[:p.rfind('/') + 1]\<close>: the path up to its last slash, the slash included.\<close>

definition split_head :: "string \<Rightarrow> string" where
  "split_head p = rev (dropWhile (\<lambda>c. c \<noteq> CHR ''/'') (rev p))"

definition rstrip_slash :: "string \<Rightarrow> string" where
  "rstrip_slash s = rev (dropWhile (\<lambda>c. c = CHR ''/'') (rev s))"

definition lstrip_slash :: "string \<Rightarrow> string" where
  "lstrip_slash s = dropWhile (\<lambda>c. c = CHR ''/'') s"

definition dirname :: "string \<Rightarrow> string" where
  "dirname p =
     (let head = split_head p
      in if head \<noteq> [] \<and> filter (\<lambda>c. c \<noteq> CHR ''/'') head \<noteq> []
         then rstrip_slash head else head)"

definition join :: "string \<Rightarrow> string \<Rightarrow> string" where
  "join a b =
     (if take 1 b = ''/'' then b
      else if a = [] \<or> take 1 (rev a) = ''/'' then a @ b
      else a @ ''/'' @ b)"

text \<open>\<^verbatim>\<open>s.split('/')\<close>.\<close>

fun split_slash :: "string \<Rightarrow> string list" where
  "split_slash [] = [[]]"
| "split_slash (c # cs) =
     (if c = CHR ''/'' then [] # split_slash cs
      else (case split_slash cs of
              [] \<Rightarrow> [[c]]
            | w # ws \<Rightarrow> (c # w) # ws))"

text \<open>
  \<^verbatim>\<open>os.path.realpath\<close> on a file system without symbolic links, with the root
  directory as the working directory: empty and \<^verbatim>\<open>.\<close> components are dropped,
  \<^verbatim>\<open>..\<close> removes the component before it and stays at the root. The stack of
  components is kept reversed.
\<close>

fun resolve :: "string list \<Rightarrow> string list \<Rightarrow> string list" where
  "resolve acc [] = rev acc"
| "resolve acc (c # cs) =
     (if c = [] \<or> c = ''.'' then resolve acc cs
      else if c = ''..'' then resolve (drop 1 acc) cs
      else resolve (c # acc) cs)"

fun join_slash :: "string list \<Rightarrow> string" where
  "join_slash [] = []"
| "join_slash [c] = c"
| "join_slash (c # cs) = c @ ''/'' @ join_slash cs"

definition realpath :: "string \<Rightarrow> string" where
  "realpath p = ''/'' @ join_slash (resolve [] (split_slash p))"

subsection \<open>The file system\<close>

text \<open>
  What the hub reads of the operating system: the entries by absolute path, a regular
  file with its \<^verbatim>\<open>st_mtime\<close> and content, a directory with its \<^verbatim>\<open>st_mtime\<close>.
  \<^verbatim>\<open>st_mtime\<close> and \<^verbatim>\<open>time.time()\<close> are floats; they are rationals here, and
  \<^verbatim>\<open>int(x)\<close> truncates towards zero.
\<close>

datatype node = File rat string | Dir rat

type_synonym filesys = "(string \<times> node) list"

fun st_mtime :: "node \<Rightarrow> rat" where
  "st_mtime (File m _) = m"
| "st_mtime (Dir m) = m"

definition py_int :: "rat \<Rightarrow> int" where
  "py_int x = (if 0 \<le> x then \<lfloor>x\<rfloor> else \<lceil>x\<rceil>)"

definition os_stat :: "filesys \<Rightarrow> string \<Rightarrow> exn + rat" where
  "os_stat fs p =
     (case map_of fs p of
        None \<Rightarrow> Inl (OSError ENOENT ''No such file or directory'')
      | Some n \<Rightarrow> Inr (st_mtime n))"

text \<open>\<^verbatim>\<open>with open(filename) as f: content = f.read()\<close>.\<close>

definition open_read :: "filesys \<Rightarrow> string \<Rightarrow> exn + string" where
  "open_read fs p =
     (case map_of fs p of
        None \<Rightarrow> Inl (IOError ENOENT (''[Errno 2] No such file or directory: '' @ quote p))
      | Some (Dir _) \<Rightarrow> Inl (IOError EISDIR (''[Errno 21] Is a directory: '' @ quote p))
      | Some (File _ content) \<Rightarrow> Inr content)"

definition path_exists :: "filesys \<Rightarrow> string \<Rightarrow> bool" where
  "path_exists fs p = (map_of fs p \<noteq> None)"

definition isdir :: "filesys \<Rightarrow> string \<Rightarrow> bool" where
  "isdir fs p = (case map_of fs p of Some (Dir _) \<Rightarrow> True | _ \<Rightarrow> False)"

definition listdir :: "filesys \<Rightarrow> string \<Rightarrow> string list" where
  "listdir fs d =
     map basename
       (filter (\<lambda>p. dirname p = d \<and> basename p \<noteq> []) (remdups (map fst fs)))"

subsection \<open>Wildcards: \<^verbatim>\<open>fnmatch\<close> and \<^verbatim>\<open>glob\<close>\<close>

text \<open>
  \<^verbatim>\<open>fnmatch.fnmatch(name, pat)\<close> for patterns made of \<^verbatim>\<open>*\<close>, \<^verbatim>\<open>?\<close> and literal
  characters; bracket expressions are not modelled. \<^verbatim>\<open>*\<close> matches any run of
  characters, a slash too, as the regular expression \<^verbatim>\<open>.*\<close> it is translated to does.
\<close>

fun fnmatch :: "string \<Rightarrow> string \<Rightarrow> bool" where
  "fnmatch [] [] = True"
| "fnmatch (c # cs) [] = False"
| "fnmatch [] (p # ps) = (p = CHR ''*'' \<and> fnmatch [] ps)"
| "fnmatch (c # cs) (p # ps) =
     (if p = CHR ''*'' then fnmatch (c # cs) ps \<or> fnmatch cs (p # ps)
      else (p = CHR ''?'' \<or> p = c) \<and> fnmatch cs ps)"

definition has_magic :: "string \<Rightarrow> bool" where
  "has_magic s = (filter (\<lambda>c. c = CHR ''*'' \<or> c = CHR ''?'') s \<noteq> [])"

text \<open>
  \<^verbatim>\<open>glob.glob(pathname)\<close> where the directory part has no wildcard and the last
  segment is not empty. A pattern without wildcard names one path, returned when it
  exists. Otherwise the names of the
  directory are matched against the pattern, and a name that starts with a dot is kept
  only when the pattern starts with a dot too (\<^verbatim>\<open>glob1\<close>).
\<close>

definition glob :: "filesys \<Rightarrow> string \<Rightarrow> string list" where
  "glob fs pathname =
     (let d = dirname pathname; b = basename pathname
      in if \<not> has_magic b then (if path_exists fs pathname then [pathname] else [])
         else map (join d)
                (filter (\<lambda>n. (take 1 b = ''.'' \<or> take 1 n \<noteq> ''.'') \<and> fnmatch n b)
                   (listdir fs d)))"

subsection \<open>Requests, frames and connections\<close>

text \<open>
  What \<^verbatim>\<open>json.loads\<close> returns. JSON numbers are integers here, as the interface
  declares \<^verbatim>\<open>since\<close>; a JSON object is the list of its members, each name once.
\<close>

datatype json =
    JNull
  | JBool bool
  | JInt int
  | JStr string
  | JList "json list"
  | JObj "(string \<times> json) list"

text \<open>
  The \<^verbatim>\<open>operation\<close> argument of \<^verbatim>\<open>on_event\<close>: \<^verbatim>\<open>'c'\<close>, \<^verbatim>\<open>'m'\<close>, \<^verbatim>\<open>'d'\<close>, and
  \<^verbatim>\<open>None\<close> (\<open>None\<close> here too) for a record replayed by \<^verbatim>\<open>_sow\<close>.
\<close>

datatype operation = Created | Modified | Deleted

text \<open>
  A frame written to a websocket: the dictionary a topic's \<^verbatim>\<open>on_event\<close> returned, kept
  opaque, with the \<^verbatim>\<open>when\<close> the hub stored in it; or the error dictionary of
  \<^verbatim>\<open>send_error_msg\<close> with its \<^verbatim>\<open>_error\<close> text and the clock reading that
  \<^verbatim>\<open>utcnow().isoformat()\<close> renders.
\<close>

type_synonym payload = string

datatype frame = Message payload rat | ErrorMsg string rat

datatype ws_event = Sent frame | Closed

text \<open>
  A handler object of class \<^verbatim>\<open>_WS\<close>. \<open>ws_connection\<close> is the truth value of the
  attribute \<^verbatim>\<open>self.ws_connection\<close>, which \<^verbatim>\<open>active()\<close> returns; \<open>trace\<close> records, in
  order, what the handler did to its client.
\<close>

record conn =
  ws_connection :: bool
  trace :: "ws_event list"

text \<open>
  A topic implementation, as the hub uses it: \<^verbatim>\<open>subscribe(message)\<close>,
  \<^verbatim>\<open>on_event(filename, operation, content)\<close> and the optional attribute
  \<^verbatim>\<open>sow_db\<close>. Either function may raise.
\<close>

record topic_impl =
  subscribe :: "(string \<times> json) list \<Rightarrow> exn + (string \<times> string) list"
  on_event :: "string \<Rightarrow> operation option \<Rightarrow> string option \<Rightarrow> exn + payload option"
  sow_db :: "string option"

text \<open>An entry of a bucket: \<^verbatim>\<open>(pattern, ws_handler, impl)\<close>; the handler is its address.\<close>

type_synonym sub = "string \<times> nat \<times> topic_impl"

text \<open>
  The \<^verbatim>\<open>DirWatchPubSub\<close> object together with the handler objects it refers to.
  \<open>handlers\<close> is the \<^verbatim>\<open>defaultdict(list)\<close> with its keys in insertion order,
  \<open>watcher\<close> the list of the registrations that \<^verbatim>\<open>self.watcher\<close> holds.
\<close>

record hub =
  root :: string
  impl :: "(string \<times> topic_impl) list"
  handlers :: "(string \<times> sub list) list"
  watcher :: "string list"
  conns :: "nat \<Rightarrow> conn"

text \<open>
  Modelled from the spec: \<^verbatim>\<open>treadmill.dirwatch.DirWatcher\<close> is not among the sources.
  Of its contract (\<^verbatim>\<open>addDirectory(path)\<close>, \<^verbatim>\<open>removeDirectory(path)\<close>) the model keeps
  the registrations: \<^verbatim>\<open>add_dir\<close> adds one registration of the directory,
  \<^verbatim>\<open>remove_dir\<close> removes the directory from the watcher. Adding is not taken to be
  idempotent, so that a second \<^verbatim>\<open>add_dir\<close> of one directory would show as a second
  registration.
\<close>

definition add_dir :: "string \<Rightarrow> hub \<Rightarrow> hub" where
  "add_dir d h = h\<lparr>watcher := watcher h @ [d]\<rparr>"

definition remove_dir :: "string \<Rightarrow> hub \<Rightarrow> hub" where
  "remove_dir d h = h\<lparr>watcher := removeAll d (watcher h)\<rparr>"

text \<open>
  Reading \<^verbatim>\<open>self.handlers[d]\<close>: the value is \<open>bucket h d\<close>, and a missing key is
  inserted with an empty list (\<open>touch\<close>), as \<^verbatim>\<open>defaultdict\<close> does.
\<close>

definition bucket :: "hub \<Rightarrow> string \<Rightarrow> sub list" where
  "bucket h d = (case map_of (handlers h) d of None \<Rightarrow> [] | Some b \<Rightarrow> b)"

definition touch :: "string \<Rightarrow> hub \<Rightarrow> hub" where
  "touch d h =
     (if map_of (handlers h) d = None then h\<lparr>handlers := handlers h @ [(d, [])]\<rparr> else h)"

definition set_bucket :: "string \<Rightarrow> sub list \<Rightarrow> hub \<Rightarrow> hub" where
  "set_bucket d b h = h\<lparr>handlers := AList.update d b (handlers h)\<rparr>"

subsection \<open>The handler class \<^verbatim>\<open>_WS\<close>\<close>

text \<open>
  \<^verbatim>\<open>write_message\<close> and \<^verbatim>\<open>close\<close> are tornado's: \<^verbatim>\<open>write_message\<close> raises
  \<^verbatim>\<open>WebSocketClosedError\<close> when \<^verbatim>\<open>ws_connection\<close> is \<^verbatim>\<open>None\<close>; \<^verbatim>\<open>close\<close> closes the
  connection and sets \<^verbatim>\<open>ws_connection\<close> to \<^verbatim>\<open>None\<close>, and does nothing when it is
  \<^verbatim>\<open>None\<close> already.
\<close>

definition active :: "nat \<Rightarrow> hub \<Rightarrow> bool" where
  "active c h = ws_connection (conns h c)"

definition log_event :: "nat \<Rightarrow> ws_event \<Rightarrow> hub \<Rightarrow> hub" where
  "log_event c e h =
     h\<lparr>conns := (conns h)(c := (conns h c)\<lparr>trace := trace (conns h c) @ [e]\<rparr>)\<rparr>"

definition write_message :: "nat \<Rightarrow> frame \<Rightarrow> hub \<Rightarrow> exn option \<times> hub" where
  "write_message c f h =
     (if active c h then (None, log_event c (Sent f) h)
      else (Some WebSocketClosedError, h))"

definition close :: "nat \<Rightarrow> hub \<Rightarrow> hub" where
  "close c h =
     (if active c h
      then (log_event c Closed h)
             \<lparr>conns := (conns (log_event c Closed h))
                (c := (conns (log_event c Closed h) c)\<lparr>ws_connection := False\<rparr>)\<rparr>
      else h)"

definition send_error_msg :: "rat \<Rightarrow> nat \<Rightarrow> string \<Rightarrow> bool \<Rightarrow> hub \<Rightarrow> exn option \<times> hub" where
  "send_error_msg now c error_str close_conn h =
     (case write_message c (ErrorMsg error_str now) h of
        (Some e, h') \<Rightarrow> (Some e, h')
      | (None, h') \<Rightarrow> (None, if close_conn then close c h' else h'))"

subsection \<open>Live events\<close>

text \<open>
  The body of the \<^verbatim>\<open>try\<close> that \<^verbatim>\<open>_notify\<close> and \<^verbatim>\<open>_publish\<close> share: ask the topic
  for a payload, and write it with its \<^verbatim>\<open>when\<close> unless it is \<^verbatim>\<open>None\<close>.
\<close>

definition deliver ::
  "topic_impl \<Rightarrow> nat \<Rightarrow> string \<Rightarrow> operation option \<Rightarrow> string option \<Rightarrow> rat \<Rightarrow> hub
     \<Rightarrow> exn option \<times> hub" where
  "deliver i c path operation content when h =
     (case on_event i path operation content of
        Inl e \<Rightarrow> (Some e, h)
      | Inr None \<Rightarrow> (None, h)
      | Inr (Some p) \<Rightarrow> write_message c (Message p when) h)"

text \<open>
  The loop of \<^verbatim>\<open>_notify\<close> over the bucket. Only a \<^verbatim>\<open>StandardError\<close> is caught;
  any other exception leaves the loop and the method.
\<close>

fun notify_loop ::
  "rat \<Rightarrow> string \<Rightarrow> operation \<Rightarrow> string option \<Rightarrow> rat \<Rightarrow> sub list \<Rightarrow> hub
     \<Rightarrow> exn option \<times> hub" where
  "notify_loop now path operation content when [] h = (None, h)"
| "notify_loop now path operation content when ((pattern, handler, i) # rest) h =
     (if \<not> active handler h then notify_loop now path operation content when rest h
      else if fnmatch (basename path) pattern then
        (case deliver i handler (drop (length (root h)) path) (Some operation) content when h of
           (None, h') \<Rightarrow> notify_loop now path operation content when rest h'
         | (Some err, h') \<Rightarrow>
             if is_StandardError err then
               (case send_error_msg now handler (type_name err @ '': '' @ str_exn err) True h' of
                  (None, h'') \<Rightarrow> notify_loop now path operation content when rest h''
                | (Some err', h'') \<Rightarrow> (Some err', h''))
             else (Some err, h'))
      else notify_loop now path operation content when rest h)"

definition notify ::
  "rat \<Rightarrow> string \<Rightarrow> operation \<Rightarrow> string option \<Rightarrow> rat \<Rightarrow> hub \<Rightarrow> exn option \<times> hub" where
  "notify now path operation content when h =
     notify_loop now path operation content when
       (bucket h (dirname path)) (touch (dirname path) h)"

text \<open>
  \<^verbatim>\<open>_handle\<close>. \<open>fs_stat\<close> is the file system when \<^verbatim>\<open>os.stat\<close> runs and \<open>fs_open\<close>
  when \<^verbatim>\<open>open\<close> runs: a file may vanish in between. Only an \<^verbatim>\<open>IOError\<close> is caught.
\<close>

definition handle ::
  "filesys \<Rightarrow> filesys \<Rightarrow> rat \<Rightarrow> operation \<Rightarrow> string \<Rightarrow> hub \<Rightarrow> exn option \<times> hub" where
  "handle fs_stat fs_open now operation filename h =
     (case (case os_stat fs_stat filename of
              Inl e \<Rightarrow> Inl e
            | Inr mtime \<Rightarrow>
                (case open_read fs_open filename of
                   Inl e \<Rightarrow> Inl e
                 | Inr content \<Rightarrow> Inr (py_int mtime, content))) of
        Inr (when, content) \<Rightarrow> notify now filename operation (Some content) (of_int when) h
      | Inl (IOError errno s) \<Rightarrow>
          if errno \<noteq> ENOENT then (Some (IOError errno s), h)
          else notify now filename Deleted None (of_int (py_int now)) h
      | Inl e \<Rightarrow> (Some e, h))"

text \<open>
  The three callbacks. \<^verbatim>\<open>os.path.basename(filename)[0]\<close> raises \<^verbatim>\<open>IndexError\<close> on
  an empty base name. The decorator \<^verbatim>\<open>exc.exit_on_unhandled\<close> is not among the
  sources; an exception that reaches it is the callback's result here.
\<close>

definition IndexError :: exn where
  "IndexError = StandardError ''IndexError'' ''string index out of range''"

definition on_created ::
  "filesys \<Rightarrow> filesys \<Rightarrow> rat \<Rightarrow> string \<Rightarrow> hub \<Rightarrow> exn option \<times> hub" where
  "on_created fs_stat fs_open now filename h =
     (case basename filename of
        [] \<Rightarrow> (Some IndexError, h)
      | c # _ \<Rightarrow>
          if c = CHR ''.'' then (None, h)
          else handle fs_stat fs_open now Created filename h)"

definition on_modified ::
  "filesys \<Rightarrow> filesys \<Rightarrow> rat \<Rightarrow> string \<Rightarrow> hub \<Rightarrow> exn option \<times> hub" where
  "on_modified fs_stat fs_open now filename h =
     (case basename filename of
        [] \<Rightarrow> (Some IndexError, h)
      | c # _ \<Rightarrow>
          if c = CHR ''.'' then (None, h)
          else handle fs_stat fs_open now Modified filename h)"

definition on_deleted :: "filesys \<Rightarrow> rat \<Rightarrow> string \<Rightarrow> hub \<Rightarrow> exn option \<times> hub" where
  "on_deleted fs now filename h =
     (case basename filename of
        [] \<Rightarrow> (Some IndexError, h)
      | c # _ \<Rightarrow>
          if c = CHR ''.'' then (None, h)
          else if path_exists fs (join (dirname filename) ''.done'') then (None, h)
          else if isdir fs filename then (None, h)
          else notify now filename Deleted None now h)"

subsection \<open>State of the world\<close>

text \<open>
  \<^verbatim>\<open>since\<close> is whatever the request carried. \<^verbatim>\<open>x >= since\<close> for a float \<^verbatim>\<open>x\<close> is
  Python 2's comparison: \<^verbatim>\<open>None\<close> is below every object, a number is compared by
  value (\<^verbatim>\<open>True\<close> is 1), and a string, a list or a dictionary is above every number.
\<close>

fun ge_since :: "rat \<Rightarrow> json \<Rightarrow> bool" where
  "ge_since x JNull = True"
| "ge_since x (JBool b) = (of_int (if b then 1 else 0) \<le> x)"
| "ge_since x (JInt n) = (of_int n \<le> x)"
| "ge_since x (JStr _) = False"
| "ge_since x (JList _) = False"
| "ge_since x (JObj _) = False"

text \<open>A record \<^verbatim>\<open>(when, path, content)\<close>; tuples are ordered lexicographically.\<close>

type_synonym item = "int \<times> string \<times> string"

text \<open>
  The loop of \<^verbatim>\<open>_get_fs_sow\<close> over the files \<^verbatim>\<open>glob.glob\<close> found. An \<^verbatim>\<open>IOError\<close> or
  \<^verbatim>\<open>OSError\<close> with \<^verbatim>\<open>ENOENT\<close> skips the file; any other exception is raised.
\<close>

fun fs_items :: "nat \<Rightarrow> filesys \<Rightarrow> json \<Rightarrow> string list \<Rightarrow> exn + item list" where
  "fs_items root_len fs since [] = Inr []"
| "fs_items root_len fs since (filename # files) =
     (case (case os_stat fs filename of
              Inl e \<Rightarrow> Inl e
            | Inr mtime \<Rightarrow>
                (case open_read fs filename of
                   Inl e \<Rightarrow> Inl e
                 | Inr content \<Rightarrow> Inr (mtime, content))) of
        Inr (mtime, content) \<Rightarrow>
          (case fs_items root_len fs since files of
             Inl e \<Rightarrow> Inl e
           | Inr items \<Rightarrow>
               Inr (if ge_since mtime since
                    then (py_int mtime, drop root_len filename, content) # items
                    else items))
      | Inl (IOError errno s) \<Rightarrow>
          if errno \<noteq> ENOENT then Inl (IOError errno s)
          else fs_items root_len fs since files
      | Inl (OSError errno s) \<Rightarrow>
          if errno \<noteq> ENOENT then Inl (OSError errno s)
          else fs_items root_len fs since files
      | Inl e \<Rightarrow> Inl e)"

definition get_fs_sow :: "string \<Rightarrow> filesys \<Rightarrow> string \<Rightarrow> string \<Rightarrow> json \<Rightarrow> exn + item list" where
  "get_fs_sow rt fs directory pattern since =
     (case fs_items (length rt) fs since (glob fs (join directory pattern)) of
        Inl e \<Rightarrow> Inl e
      | Inr items \<Rightarrow> Inr (sort items))"

text \<open>
  The table \<^verbatim>\<open>sow\<close> of a database file is its list of rows
  \<^verbatim>\<open>(timestamp, path, data)\<close>. The statement
  \<^verbatim>\<open>SELECT timestamp, path, data FROM sow WHERE path GLOB ? AND timestamp >= ? ORDER BY timestamp\<close>
  keeps the rows that pass both tests and orders them by timestamp alone (rows of equal
  timestamp stay in table order). \<^verbatim>\<open>GLOB\<close> is taken to match as \<open>fnmatch\<close> does. A list
  or a dictionary cannot be bound to a parameter, nor an integer that does not fit 64
  bits; a text bound is above every integer (the column is taken to have no numeric
  affinity); a comparison with \<^verbatim>\<open>NULL\<close> holds for no row. A file that is no
  database of this shape has no table \<^verbatim>\<open>sow\<close>.
\<close>

type_synonym databases = "(string \<times> item list) list"

definition InterfaceError :: exn where
  "InterfaceError =
     StandardError ''InterfaceError'' ''Error binding parameter 1 - probably unsupported type.''"

definition OperationalError :: exn where
  "OperationalError = StandardError ''OperationalError'' ''no such table: sow''"

definition OverflowError :: exn where
  "OverflowError =
     StandardError ''OverflowError'' ''Python int too large to convert to SQLite INTEGER''"

fun fits_int64 :: "json \<Rightarrow> bool" where
  "fits_int64 (JInt n) = (- (2 ^ 63) \<le> n \<and> n < 2 ^ 63)"
| "fits_int64 _ = True"

definition sow_select :: "databases \<Rightarrow> string \<Rightarrow> string \<Rightarrow> json \<Rightarrow> exn + item list" where
  "sow_select dbs dbpath db_glob since =
     (case since of
        JList _ \<Rightarrow> Inl InterfaceError
      | JObj _ \<Rightarrow> Inl InterfaceError
      | _ \<Rightarrow>
        if \<not> fits_int64 since then Inl OverflowError
        else
        (case map_of dbs dbpath of
           None \<Rightarrow> Inl OperationalError
         | Some rows \<Rightarrow>
             Inr (sort_key fst
                    (filter (\<lambda>(t, p, d). fnmatch p db_glob \<and> since \<noteq> JNull
                                            \<and> ge_since (of_int t) since) rows))))"

text \<open>
  \<^verbatim>\<open>heapq.merge\<close> of two iterables: the smaller head goes first, and of two equal
  heads the one of the first iterable.
\<close>

fun heapq_merge :: "item list \<Rightarrow> item list \<Rightarrow> item list" where
  "heapq_merge [] ys = ys"
| "heapq_merge xs [] = xs"
| "heapq_merge (x # xs) (y # ys) =
     (if y < x then y # heapq_merge (x # xs) ys else x # heapq_merge xs (y # ys))"

text \<open>\<^verbatim>\<open>_publish\<close>: every \<^verbatim>\<open>Exception\<close> is caught and reported to the handler.\<close>

definition publish :: "rat \<Rightarrow> topic_impl \<Rightarrow> nat \<Rightarrow> item \<Rightarrow> hub \<Rightarrow> exn option \<times> hub" where
  "publish now i handler item h =
     (case item of (when, path, content) \<Rightarrow>
        (case deliver i handler path None (Some content) (of_int when) h of
           (None, h') \<Rightarrow> (None, h')
         | (Some err, h') \<Rightarrow>
             if is_Exception err then send_error_msg now handler (str_exn err) True h'
             else (Some err, h')))"

text \<open>The loop over the merged records, with \<^verbatim>\<open>prev_path\<close>.\<close>

fun sow_loop ::
  "rat \<Rightarrow> topic_impl \<Rightarrow> nat \<Rightarrow> string option \<Rightarrow> item list \<Rightarrow> hub \<Rightarrow> exn option \<times> hub" where
  "sow_loop now i handler prev_path [] h = (None, h)"
| "sow_loop now i handler prev_path ((when, path, content) # items) h =
     (if Some path = prev_path then sow_loop now i handler prev_path items h
      else
        (case publish now i handler (when, path, content) h of
           (None, h') \<Rightarrow> sow_loop now i handler (Some path) items h'
         | (Some err, h') \<Rightarrow> (Some err, h')))"

definition sow ::
  "filesys \<Rightarrow> databases \<Rightarrow> rat \<Rightarrow> string \<Rightarrow> string \<Rightarrow> json \<Rightarrow> nat \<Rightarrow> topic_impl \<Rightarrow> hub
     \<Rightarrow> exn option \<times> hub" where
  "sow fs dbs now directory pattern since0 handler i h =
     (let since = (if since0 = JNull then JInt 0 else since0)
      in case get_fs_sow (root h) fs directory pattern since of
           Inl e \<Rightarrow> (Some e, h)
         | Inr fs_records \<Rightarrow>
             (case (case sow_db i of
                      None \<Rightarrow> Inr []
                    | Some db \<Rightarrow>
                        if db = [] then Inr []
                        else sow_select dbs (join (root h) db)
                               (join (drop (length (root h)) directory) pattern) since) of
                Inl e \<Rightarrow> (Some e, h)
              | Inr db_records \<Rightarrow>
                  sow_loop now i handler None (heapq_merge db_records fs_records) h))"

text \<open>
  The block \<^verbatim>\<open>if sow_db:\<close> of \<^verbatim>\<open>_sow\<close> on its own: the records that the database
  contributes to the merge, none when the topic has no database.
\<close>

definition get_db_sow ::
  "databases \<Rightarrow> topic_impl \<Rightarrow> hub \<Rightarrow> string \<Rightarrow> string \<Rightarrow> json \<Rightarrow> exn + item list" where
  "get_db_sow dbs i h directory pattern since =
     (case sow_db i of
        None \<Rightarrow> Inr []
      | Some db \<Rightarrow>
          if db = [] then Inr []
          else sow_select dbs (join (root h) db)
                 (join (drop (length (root h)) directory) pattern) since)"

subsection \<open>Registration and garbage collection\<close>

text \<open>
  \<^verbatim>\<open>register\<close>. \<^verbatim>\<open>fs.mkdir_safe\<close> is not among the sources; it is taken to succeed,
  and \<open>fs\<close> is the file system after it.
\<close>

definition register ::
  "filesys \<Rightarrow> databases \<Rightarrow> rat \<Rightarrow> string \<Rightarrow> string \<Rightarrow> nat \<Rightarrow> topic_impl \<Rightarrow> json \<Rightarrow> hub
     \<Rightarrow> exn option \<times> hub" where
  "register fs dbs now directory pattern ws_handler i since h =
     (let norm_path = realpath (join (root h) (lstrip_slash directory));
          h1 = touch norm_path h;
          h2 = (if bucket h1 norm_path = [] then add_dir norm_path h1 else h1);
          h3 = set_bucket norm_path (bucket h2 norm_path @ [(pattern, ws_handler, i)]) h2
      in sow fs dbs now norm_path pattern since ws_handler i h3)"

text \<open>\<^verbatim>\<open>_gc\<close>: the loop over \<^verbatim>\<open>list(self.handlers.viewkeys())\<close>.\<close>

fun gc_loop :: "string list \<Rightarrow> hub \<Rightarrow> hub" where
  "gc_loop [] h = h"
| "gc_loop (directory # ds) h =
     (let hs = filter (\<lambda>(pattern, handler, i). active handler h) (bucket h directory);
          h1 = (if hs = [] then remove_dir directory h else h)
      in gc_loop ds (set_bucket directory hs h1))"

definition gc :: "hub \<Rightarrow> hub" where
  "gc h = gc_loop (map fst (handlers h)) h"

subsection \<open>The protocol layer: \<^verbatim>\<open>_WS.on_message\<close>\<close>

text \<open>
  \<^verbatim>\<open>str(n)\<close> and \<^verbatim>\<open>'%r' % topic\<close> for what \<^verbatim>\<open>json.loads\<close> returns and can be a key.
  A string is a \<^verbatim>\<open>unicode\<close> object: its \<^verbatim>\<open>repr\<close> is in double quotes when the string
  has a single quote and no double quote, and escapes the quote it uses and the
  backslash. The strings are taken to be of printable ASCII characters.
\<close>

function show_nat :: "nat \<Rightarrow> string" where
  "show_nat n =
     (if n < 10 then [char_of (48 + n)]
      else show_nat (n div 10) @ [char_of (48 + n mod 10)])"
  by pat_completeness auto
termination
  by (relation "measure (\<lambda>n. n)") auto

definition show_int :: "int \<Rightarrow> string" where
  "show_int k = (if k < 0 then ''-'' @ show_nat (nat (- k)) else show_nat (nat k))"

fun py_repr :: "json \<Rightarrow> string" where
  "py_repr JNull = ''None''"
| "py_repr (JBool b) = (if b then ''True'' else ''False'')"
| "py_repr (JInt k) = show_int k"
| "py_repr (JStr s) =
     (let q = (if CHR 0x27 \<in> set s \<and> CHR 0x22 \<notin> set s then CHR 0x22 else CHR 0x27)
      in ''u'' @ [q] @
         concat (map (\<lambda>c. if c = q \<or> c = CHR 0x5C then [CHR 0x5C, c] else [c]) s) @ [q])"
| "py_repr (JList _) = ''[...]''"
| "py_repr (JObj _) = ''{...}''"

fun truthy :: "json \<Rightarrow> bool" where
  "truthy JNull = False"
| "truthy (JBool b) = b"
| "truthy (JInt k) = (k \<noteq> 0)"
| "truthy (JStr s) = (s \<noteq> [])"
| "truthy (JList xs) = (xs \<noteq> [])"
| "truthy (JObj m) = (m \<noteq> [])"

definition KeyError :: "string \<Rightarrow> exn" where
  "KeyError k = StandardError ''KeyError'' ([CHR 0x27] @ k @ [CHR 0x27])"

definition TypeError :: "string \<Rightarrow> exn" where
  "TypeError s = StandardError ''TypeError'' s"

definition no_getitem :: "string \<Rightarrow> exn" where
  "no_getitem tn = TypeError (quote tn @ '' object has no attribute '' @ quote ''__getitem__'')"

definition unhashable :: "string \<Rightarrow> exn" where
  "unhashable tn = TypeError (''unhashable type: '' @ quote tn)"

text \<open>\<^verbatim>\<open>message['topic']\<close>: only a dictionary can be indexed by a string.\<close>

fun getitem_topic :: "json \<Rightarrow> exn + json" where
  "getitem_topic (JObj m) =
     (case map_of m ''topic'' of None \<Rightarrow> Inl (KeyError ''topic'') | Some t \<Rightarrow> Inr t)"
| "getitem_topic (JList _) = Inl (TypeError ''list indices must be integers, not str'')"
| "getitem_topic (JStr _) = Inl (TypeError ''string indices must be integers'')"
| "getitem_topic (JInt _) = Inl (no_getitem ''int'')"
| "getitem_topic (JBool _) = Inl (no_getitem ''bool'')"
| "getitem_topic JNull = Inl (no_getitem ''NoneType'')"

text \<open>\<^verbatim>\<open>pubsub.impl.get(topic)\<close>: a list or a dictionary is not hashable.\<close>

fun impl_get :: "(string \<times> topic_impl) list \<Rightarrow> json \<Rightarrow> exn + topic_impl option" where
  "impl_get impls (JStr s) = Inr (map_of impls s)"
| "impl_get impls (JList _) = Inl (unhashable ''list'')"
| "impl_get impls (JObj _) = Inl (unhashable ''dict'')"
| "impl_get impls _ = Inr None"

text \<open>\<^verbatim>\<open>message.get(key, default)\<close> on the dictionary.\<close>

fun dict_get :: "json \<Rightarrow> string \<Rightarrow> json \<Rightarrow> json" where
  "dict_get (JObj m) k dflt = (case map_of m k of None \<Rightarrow> dflt | Some v \<Rightarrow> v)"
| "dict_get _ k dflt = dflt"

fun register_all ::
  "filesys \<Rightarrow> databases \<Rightarrow> rat \<Rightarrow> nat \<Rightarrow> topic_impl \<Rightarrow> json \<Rightarrow> (string \<times> string) list \<Rightarrow> hub
     \<Rightarrow> exn option \<times> hub" where
  "register_all fs dbs now self i since [] h = (None, h)"
| "register_all fs dbs now self i since ((directory, pattern) # rest) h =
     (case register fs dbs now directory pattern self i since h of
        (None, h') \<Rightarrow> register_all fs dbs now self i since rest h'
      | (Some err, h') \<Rightarrow> (Some err, h'))"

text \<open>
  The \<^verbatim>\<open>try\<close> block of \<^verbatim>\<open>on_message\<close>. \<open>decoded\<close> is the outcome of
  \<^verbatim>\<open>json.loads(jmessage)\<close>: the value, or the \<^verbatim>\<open>ValueError\<close> raised. \<^verbatim>\<open>pubsub\<close> is
  the hub that built the handler class, so the branch \<^verbatim>\<open>if not pubsub\<close> is not taken.
\<close>

definition on_message_try ::
  "filesys \<Rightarrow> databases \<Rightarrow> rat \<Rightarrow> nat \<Rightarrow> exn + json \<Rightarrow> hub \<Rightarrow> exn option \<times> hub" where
  "on_message_try fs dbs now self decoded h =
     (case decoded of
        Inl e \<Rightarrow> (Some e, h)
      | Inr message \<Rightarrow>
        (case getitem_topic message of
           Inl e \<Rightarrow> (Some e, h)
         | Inr topic \<Rightarrow>
           (case impl_get (impl h) topic of
              Inl e \<Rightarrow> (Some e, h)
            | Inr None \<Rightarrow> send_error_msg now self (''Invalid topic: '' @ py_repr topic) True h
            | Inr (Some i) \<Rightarrow>
              (let since = dict_get message ''since'' (JInt 0);
                   snapshot = dict_get message ''snapshot'' (JBool False)
               in case (case message of JObj m \<Rightarrow> subscribe i m | _ \<Rightarrow> subscribe i []) of
                    Inl e \<Rightarrow> (Some e, h)
                  | Inr pairs \<Rightarrow>
                      (case register_all fs dbs now self i since pairs h of
                         (Some e, h') \<Rightarrow> (Some e, h')
                       | (None, h') \<Rightarrow>
                           (None, if truthy snapshot then close self h' else h'))))))"

definition on_message ::
  "filesys \<Rightarrow> databases \<Rightarrow> rat \<Rightarrow> nat \<Rightarrow> exn + json \<Rightarrow> hub \<Rightarrow> exn option \<times> hub" where
  "on_message fs dbs now self decoded h =
     (case on_message_try fs dbs now self decoded h of
        (None, h') \<Rightarrow> (None, h')
      | (Some err, h') \<Rightarrow>
          if is_Exception err then send_error_msg now self (str_exn err) True h'
          else (Some err, h'))"

subsection \<open>Runs of the hub\<close>

text \<open>
  A client that goes away: tornado clears \<^verbatim>\<open>ws_connection\<close> of its handler.
\<close>

definition connection_lost :: "nat \<Rightarrow> hub \<Rightarrow> hub" where
  "connection_lost c h = h\<lparr>conns := (conns h)(c := (conns h c)\<lparr>ws_connection := False\<rparr>)\<rparr>"

text \<open>
  What happens to a hub between its construction and a later moment, as far as the
  watcher is concerned: calls of \<^verbatim>\<open>register\<close> (whether they return or raise), passes
  of \<^verbatim>\<open>_gc\<close>, and connections that die in between.
\<close>

datatype action =
    Register filesys databases rat string string nat topic_impl json
  | Gc
  | Lost nat

fun step :: "action \<Rightarrow> hub \<Rightarrow> hub" where
  "step (Register fs dbs now directory pattern c i since) h =
     snd (register fs dbs now directory pattern c i since h)"
| "step Gc h = gc h"
| "step (Lost c) h = connection_lost c h"

fun run :: "action list \<Rightarrow> hub \<Rightarrow> hub" where
  "run [] h = h"
| "run (a # as) h = run as (step a h)"

subsection \<open>Example data\<close>

text \<open>
  A topic whose payload is the path of the event and whose records are also kept in the
  database \<^verbatim>\<open>sow.db\<close>; a topic whose \<^verbatim>\<open>on_event\<close> raises an error class derived from
  \<^verbatim>\<open>Exception\<close>, as \<^verbatim>\<open>yaml.load\<close> in \<^verbatim>\<open>websocket/api/identity_group.py\<close> does on
  a malformed file; a hub rooted at \<^verbatim>\<open>/r\<close> with every connection open and nothing
  sent yet; the same hub with two subscriptions on \<^verbatim>\<open>/r/endpoints\<close>, and with one.
\<close>

definition topic_echo :: topic_impl where
  "topic_echo =
     \<lparr>subscribe = (\<lambda>m. Inr [(''/endpoints'', ''*'')]),
      on_event = (\<lambda>p operation c. Inr (Some p)),
      sow_db = Some ''sow.db''\<rparr>"

definition topic_yaml :: topic_impl where
  "topic_yaml =
     \<lparr>subscribe = (\<lambda>m. Inr [(''/endpoints'', ''*'')]),
      on_event =
        (\<lambda>p operation c. Inl (OtherException ''YAMLError'' ''could not find expected key'')),
      sow_db = None\<rparr>"

definition fresh_conn :: conn where
  "fresh_conn = \<lparr>ws_connection = True, trace = []\<rparr>"

definition hub0 :: hub where
  "hub0 =
     \<lparr>root = ''/r'', impl = [(''/endpoints'', topic_echo)], handlers = [], watcher = [],
      conns = (\<lambda>c. fresh_conn)\<rparr>"

definition hub_two :: hub where
  "hub_two =
     hub0\<lparr>handlers := [(''/r/endpoints'', [(''*'', 1, topic_yaml), (''*'', 2, topic_echo)])],
          watcher := [''/r/endpoints'']\<rparr>"

definition hub_one :: hub where
  "hub_one =
     hub0\<lparr>handlers := [(''/r/endpoints'', [(''*'', 2, topic_echo)])],
          watcher := [''/r/endpoints'']\<rparr>"

text \<open>
  A directory with two files, of which \<^verbatim>\<open>a\<close> also has an older record in the
  database; a directory that holds only the marker \<^verbatim>\<open>.done\<close>.
\<close>

definition fs_dup :: filesys where
  "fs_dup = [(''/r/endpoints/a'', File 100 ''new''), (''/r/endpoints/b'', File 70 ''z'')]"

definition dbs_dup :: databases where
  "dbs_dup = [(''/r/sow.db'', [(50, ''/endpoints/a'', ''old'')])]"

definition fs_dot :: filesys where
  "fs_dot = [(''/r/endpoints/.done'', File 100 [])]"

text \<open>
  A directory where the move to the database is under way: \<^verbatim>\<open>a\<close> has been deleted,
  \<^verbatim>\<open>b\<close> and the marker \<^verbatim>\<open>.done\<close> are still there.
\<close>

definition fs_done :: filesys where
  "fs_done = [(''/r/endpoints/b'', File 70 ''z''), (''/r/endpoints/.done'', File 150 [])]"


text \<open>
  A directory and a database with records from before 1970: the file \<^verbatim>\<open>e\<close> and the
  row of \<^verbatim>\<open>/endpoints/d\<close> have negative times.
\<close>

definition fs_old :: filesys where
  "fs_old = [(''/r/endpoints/a'', File 100 ''new''), (''/r/endpoints/b'', File 70 ''z''),
             (''/r/endpoints/e'', File (-5) ''early'')]"

definition dbs_old :: databases where
  "dbs_old = [(''/r/sow.db'', [(50, ''/endpoints/c'', ''old''), (-7, ''/endpoints/d'', ''older'')])]"



text \<open>The hub with one subscription after its client has gone away.\<close>

definition hub_dead :: hub where
  "hub_dead = connection_lost 2 hub_one"

subsection \<open>Outcomes named by the specification\<close>

text \<open>
  A call that returns normally, has sent the handler's client one error frame with the
  given text and has then closed the connection.
\<close>

definition error_then_closed :: "rat \<Rightarrow> nat \<Rightarrow> string \<Rightarrow> hub \<Rightarrow> exn option \<times> hub \<Rightarrow> bool" where
  "error_then_closed now c txt h r =
     (fst r = None \<and>
      trace (conns (snd r) c) = trace (conns h c) @ [Sent (ErrorMsg txt now), Closed] \<and>
      \<not> active c (snd r))"

subsection \<open>Invariants\<close>

text \<open>
  Two hubs with the same books: bucket map, watcher, root and topics. The functions
  that write to connections change nothing else.
\<close>

definition same_books :: "hub \<Rightarrow> hub \<Rightarrow> bool" where
  "same_books h h' =
     (handlers h' = handlers h \<and> watcher h' = watcher h \<and> root h' = root h \<and>
      impl h' = impl h)"

text \<open>
  The watcher holds no directory twice, and every directory it holds has a bucket that
  is not empty.
\<close>

definition watch_inv :: "hub \<Rightarrow> bool" where
  "watch_inv h = (distinct (watcher h) \<and> list_all (\<lambda>d. bucket h d \<noteq> []) (watcher h))"

text \<open>
  How the trace of connection \<open>c\<close> may change from \<open>h\<close> to \<open>h'\<close>: an open
  connection is sent frames and stays open, or is sent frames and is then closed; a
  closed connection stays closed and its trace as it is.
\<close>

definition extends :: "nat \<Rightarrow> hub \<Rightarrow> hub \<Rightarrow> bool" where
  "extends c h h' =
     (if active c h
      then (\<exists>fs. trace (conns h' c) = trace (conns h c) @ map Sent fs \<and> active c h') \<or>
           (\<exists>fs. trace (conns h' c) = trace (conns h c) @ map Sent fs @ [Closed] \<and>
                 \<not> active c h')
      else trace (conns h' c) = trace (conns h c) \<and> \<not> active c h')"

section \<open>Properties\<close>

subsection \<open>Connections\<close>

lemma active_log_event [simp]: "active c (log_event c' e h) = active c h"
  by (simp add: active_def log_event_def)

lemma trace_log_event [simp]:
  "trace (conns (log_event c' e h) c) =
     (if c = c' then trace (conns h c) @ [e] else trace (conns h c))"
  by (simp add: log_event_def)

lemma active_close [simp]: "active c (close c' h) = (c \<noteq> c' \<and> active c h)"
  by (auto simp add: close_def active_def log_event_def)

lemma trace_close [simp]:
  "trace (conns (close c' h) c) =
     (if c = c' \<and> active c h then trace (conns h c) @ [Closed] else trace (conns h c))"
  by (auto simp add: close_def active_def log_event_def)

lemma send_error_msg_active:
  "active c h \<Longrightarrow>
   send_error_msg now c txt True h = (None, close c (log_event c (Sent (ErrorMsg txt now)) h))"
  by (simp add: send_error_msg_def write_message_def)

lemma error_then_closed_send:
  "active c h \<Longrightarrow> error_then_closed now c txt h (send_error_msg now c txt True h)"
  by (simp add: send_error_msg_active error_then_closed_def)

subsection \<open>Replay of the state of the world\<close>

text \<open>
  With an integer \<^verbatim>\<open>since\<close>, no record that enters the merge is older than it: the
  scan keeps a file when its \<^verbatim>\<open>st_mtime\<close> is not below \<^verbatim>\<open>since\<close>, and truncation
  does not take the time below an integer it was not below; the query has the same
  test in its \<^verbatim>\<open>WHERE\<close> clause.
\<close>

lemma py_int_ge: "of_int T \<le> x \<Longrightarrow> T \<le> py_int x"
proof (cases "0 \<le> x")
  case True
  assume "of_int T \<le> x"
  with True show ?thesis by (simp add: py_int_def le_floor_iff)
next
  case False
  assume "of_int T \<le> x"
  also have "x \<le> of_int \<lceil>x\<rceil>" by (rule le_of_int_ceiling)
  finally have "T \<le> \<lceil>x\<rceil>" by (simp only: of_int_le_iff)
  with False show ?thesis by (simp add: py_int_def)
qed

lemma fs_items_since:
  "fs_items n fs (JInt T) files = Inr items \<Longrightarrow> list_all (\<lambda>r. T \<le> fst r) items"
proof (induction files arbitrary: items)
  case Nil
  then show ?case by simp
next
  case (Cons f files)
  show ?case
  proof (cases "fs_items n fs (JInt T) files")
    case (Inl e)
    with Cons.prems show ?thesis
      by (auto split: sum.splits exn.splits if_splits)
  next
    case (Inr rest)
    then have r: "list_all (\<lambda>r. T \<le> fst r) rest" by (rule Cons.IH)
    from Cons.prems Inr r show ?thesis
      by (auto split: sum.splits exn.splits if_splits simp: py_int_ge)
  qed
qed

lemma get_fs_sow_since:
  "get_fs_sow rt fs directory pattern (JInt T) = Inr items \<Longrightarrow>
   list_all (\<lambda>r. T \<le> fst r) items"
  by (fastforce simp add: get_fs_sow_def list_all_iff split: sum.splits
           dest!: fs_items_since)

lemma sow_select_since:
  "sow_select dbs dbpath db_glob (JInt T) = Inr rows \<Longrightarrow>
   list_all (\<lambda>r. T \<le> fst r) rows"
  by (fastforce simp add: sow_select_def list_all_iff split: option.splits if_splits)

lemma set_heapq_merge: "set (heapq_merge xs ys) = set xs \<union> set ys"
  by (induction xs ys rule: heapq_merge.induct) auto

lemma merged_records_since:
  "get_fs_sow rt fs directory pattern (JInt T) = Inr fs_records \<Longrightarrow>
   sow_select dbs dbpath db_glob (JInt T) = Inr db_records \<Longrightarrow>
   list_all (\<lambda>r. T \<le> fst r) (heapq_merge db_records fs_records)"
  using get_fs_sow_since[of rt fs directory pattern T fs_records]
    sow_select_since[of dbs dbpath db_glob T db_records]
  by (fastforce simp add: list_all_iff set_heapq_merge)

text \<open>
  C1. A replay with \<^verbatim>\<open>since = T\<close> should emit no record older than \<^verbatim>\<open>T\<close> and each path
  at most once, also when the path is in the database and on the file system. The loop
  of \<^verbatim>\<open>_sow\<close> ("Merge db and fs records, removing duplicates") only compares a path
  with the one published just before it, and the merge is ordered by timestamp. With
  \<^verbatim>\<open>/endpoints/a\<close> in the database at 50 and on disk at 100, and \<^verbatim>\<open>/endpoints/b\<close> on
  disk at 70, the replay of a subscription to \<^verbatim>\<open>*\<close> with \<^verbatim>\<open>since = 0\<close> returns
  normally and has sent \<^verbatim>\<open>/endpoints/a\<close> twice.
\<close>

theorem sow_replays_path_twice:
  "fst (register fs_dup dbs_dup 200 ''/endpoints'' ''*'' 1 topic_echo (JInt 0) hub0) = None \<and>
   trace (conns (snd (register fs_dup dbs_dup 200 ''/endpoints'' ''*'' 1 topic_echo (JInt 0) hub0)) 1) =
     [Sent (Message ''/endpoints/a'' 50), Sent (Message ''/endpoints/b'' 70),
      Sent (Message ''/endpoints/a'' 100)]"
  by code_simp

text \<open>The three live callbacks return at once on a hidden file.\<close>

lemma live_callbacks_ignore_dotfiles:
  "basename filename = CHR ''.'' # cs \<Longrightarrow>
   on_created fs1 fs2 now filename h = (None, h) \<and>
   on_modified fs1 fs2 now filename h = (None, h) \<and>
   on_deleted fs1 now filename h = (None, h)"
  by (simp add: on_created_def on_modified_def on_deleted_def)

text \<open>
  C4. A path whose last segment starts with a dot should never produce a message. The
  three live callbacks return at once on such a path, but \<^verbatim>\<open>_sow\<close> and
  \<^verbatim>\<open>_get_fs_sow\<close> have no such test: a subscription whose pattern starts with a dot
  is replayed the hidden files that \<^verbatim>\<open>glob\<close> finds. Here the pattern \<^verbatim>\<open>.*\<close> on a
  directory that holds \<^verbatim>\<open>.done\<close> sends a message for \<^verbatim>\<open>/endpoints/.done\<close>.
\<close>

theorem sow_replays_dotfile:
  "trace (conns (snd (register fs_dot dbs_dup 200 ''/endpoints'' ''.*'' 1 topic_echo (JInt 0) hub0)) 1) =
     [Sent (Message ''/endpoints/.done'' 100)]"
  by code_simp

subsection \<open>Live events\<close>

text \<open>
  One step of the loop of \<^verbatim>\<open>_notify\<close> on a live, matching subscription whose topic
  raises: a \<^verbatim>\<open>StandardError\<close> is reported to that connection, which is closed, and the
  loop goes on; any other exception ends the loop.
\<close>

lemma notify_loop_standard_error:
  "active handler h \<Longrightarrow> fnmatch (basename path) pattern \<Longrightarrow>
   on_event i (drop (length (root h)) path) (Some operation) content = Inl err \<Longrightarrow>
   is_StandardError err \<Longrightarrow>
   notify_loop now path operation content when ((pattern, handler, i) # rest) h =
     notify_loop now path operation content when rest
       (close handler
          (log_event handler (Sent (ErrorMsg (type_name err @ '': '' @ str_exn err) now)) h))"
  by (simp add: deliver_def send_error_msg_active)

lemma notify_loop_other_exception:
  "active handler h \<Longrightarrow> fnmatch (basename path) pattern \<Longrightarrow>
   on_event i (drop (length (root h)) path) (Some operation) content = Inl err \<Longrightarrow>
   \<not> is_StandardError err \<Longrightarrow>
   notify_loop now path operation content when ((pattern, handler, i) # rest) h = (Some err, h)"
  by (simp add: deliver_def)

text \<open>
  C6. When the topic of one subscription raises during the dispatch of an event, that
  connection should get an error frame and the other subscriptions their message.
  \<^verbatim>\<open>_notify\<close> catches \<^verbatim>\<open>StandardError\<close> only (\<^verbatim>\<open>_publish\<close> catches \<^verbatim>\<open>Exception\<close>). With
  the first subscriber's topic raising a \<^verbatim>\<open>YAMLError\<close>, the callback for the created
  file \<^verbatim>\<open>/r/endpoints/a\<close> ends with that exception: the first connection gets no
  error frame and the second, whose topic and pattern accept the event, gets nothing.
\<close>

theorem notify_aborts_on_non_standard_error:
  "fst (on_created fs_dup fs_dup 200 ''/r/endpoints/a'' hub_two) =
     Some (OtherException ''YAMLError'' ''could not find expected key'') \<and>
   trace (conns (snd (on_created fs_dup fs_dup 200 ''/r/endpoints/a'' hub_two)) 1) = [] \<and>
   trace (conns (snd (on_created fs_dup fs_dup 200 ''/r/endpoints/a'' hub_two)) 2) = []"
  by code_simp

text \<open>
  \<^verbatim>\<open>_handle\<close> on a file that is gone: after \<^verbatim>\<open>os.stat\<close> has succeeded, the failure
  of \<^verbatim>\<open>open\<close> is turned into a deletion; before it, \<^verbatim>\<open>os.stat\<close> raises.
\<close>

lemma handle_file_vanished_after_stat:
  "map_of fs_stat filename = Some n \<Longrightarrow> map_of fs_open filename = None \<Longrightarrow>
   handle fs_stat fs_open now operation filename h =
     notify now filename Deleted None (of_int (py_int now)) h"
  by (simp add: handle_def os_stat_def open_read_def ENOENT_def)

lemma handle_file_vanished_before_stat:
  "map_of fs_stat filename = None \<Longrightarrow>
   handle fs_stat fs_open now operation filename h =
     (Some (OSError ENOENT ''No such file or directory''), h)"
  by (simp add: handle_def os_stat_def)

text \<open>
  C7. A created or modified file that is gone when it is read should be reported as a
  deletion, without an exception. \<^verbatim>\<open>_handle\<close> catches \<^verbatim>\<open>IOError\<close>, which \<^verbatim>\<open>open\<close>
  raises, but \<^verbatim>\<open>os.stat\<close> comes first and raises \<^verbatim>\<open>OSError\<close> (\<^verbatim>\<open>_get_fs_sow\<close>
  catches both). For the created file \<^verbatim>\<open>/r/endpoints/gone\<close>, absent when the callback
  runs, the callback ends with the \<^verbatim>\<open>OSError\<close> and the subscriber of \<^verbatim>\<open>*\<close> gets
  no deletion.
\<close>

theorem handle_raises_when_file_is_gone:
  "fst (on_created fs_dup fs_dup 200 ''/r/endpoints/gone'' hub_one) =
     Some (OSError ENOENT ''No such file or directory'') \<and>
   trace (conns (snd (on_created fs_dup fs_dup 200 ''/r/endpoints/gone'' hub_one)) 2) = []"
  by code_simp

subsection \<open>The done marker\<close>

lemma basename_append_slash:
  "CHR ''/'' \<notin> set b \<Longrightarrow> basename (a @ ''/'' @ b) = b"
proof -
  assume b: "CHR ''/'' \<notin> set b"
  then have tw: "takeWhile (\<lambda>c. c \<noteq> CHR ''/'') (rev b) = rev b"
    by (simp add: takeWhile_eq_all_conv) blast
  show ?thesis by (simp add: basename_def takeWhile_tail tw)
qed

lemma basename_join_done: "basename (join d ''.done'') = ''.done''"
proof (cases "d = [] \<or> take 1 (rev d) = ''/''")
  case False
  then have "join d ''.done'' = d @ ''/'' @ ''.done''" by (simp add: join_def)
  then show ?thesis using basename_append_slash[of "''.done''" d] by simp
next
  case True
  show ?thesis
  proof (cases "d = []")
    case True
    then show ?thesis by (simp add: join_def basename_def)
  next
    case False
    with True have "take 1 (rev d) = ''/''" by simp
    then obtain d' where "d = d' @ ''/''"
      by (cases d rule: rev_cases) auto
    then have "join d ''.done'' = d' @ ''/'' @ ''.done''" by (simp add: join_def)
    then show ?thesis using basename_append_slash[of "''.done''" d'] by simp
  qed
qed

lemma map_of_filter_key:
  "map_of (filter (\<lambda>e. fst e \<noteq> k) xs) x = (if x = k then None else map_of xs x)"
  by (induction xs) auto

text \<open>
  C5. For a deleted path that is neither hidden nor a directory, \<^verbatim>\<open>_on_deleted\<close>
  returns without dispatching exactly when \<^verbatim>\<open>.done\<close> exists beside the path at that
  moment, and calls \<^verbatim>\<open>_notify\<close> with operation \<^verbatim>\<open>'d'\<close>, no content and the clock
  otherwise. On the file system with the marker removed the deletion is dispatched, and
  the deletion of the marker itself is ignored.
\<close>

theorem on_deleted_suppressed_iff_done_marker:
  assumes "basename filename = c # cs" and "c \<noteq> CHR ''.''" and "\<not> isdir fs filename"
  shows "on_deleted fs now filename h =
           (if path_exists fs (join (dirname filename) ''.done'') then (None, h)
            else notify now filename Deleted None now h) \<and>
         on_deleted (filter (\<lambda>e. fst e \<noteq> join (dirname filename) ''.done'') fs) now filename h =
           notify now filename Deleted None now h \<and>
         on_deleted fs now (join (dirname filename) ''.done'') h = (None, h)"
proof (intro conjI)
  show "on_deleted fs now filename h =
           (if path_exists fs (join (dirname filename) ''.done'') then (None, h)
            else notify now filename Deleted None now h)"
    using assms by (simp add: on_deleted_def)
next
  let ?marker = "join (dirname filename) ''.done''"
  have ne: "filename \<noteq> ?marker"
  proof
    assume "filename = ?marker"
    then have "basename filename = ''.done''"
      using basename_join_done[of "dirname filename"] by simp
    with assms show False by simp
  qed
  then show "on_deleted (filter (\<lambda>e. fst e \<noteq> ?marker) fs) now filename h =
           notify now filename Deleted None now h"
    using assms by (simp add: on_deleted_def path_exists_def isdir_def map_of_filter_key)
next
  show "on_deleted fs now (join (dirname filename) ''.done'') h = (None, h)"
    by (simp add: on_deleted_def basename_join_done)
qed

theorem on_deleted_suppressed_iff_done_marker_witness:
  "on_deleted fs_done 200 ''/r/endpoints/a'' hub_one = (None, hub_one) \<and>
   trace (conns (snd (on_deleted (filter (\<lambda>e. fst e \<noteq> ''/r/endpoints/.done'') fs_done) 200
                        ''/r/endpoints/a'' hub_one)) 2) =
     [Sent (Message ''/endpoints/a'' 200)]"
proof -
  have b: "basename ''/r/endpoints/a'' = CHR ''a'' # []" by code_simp
  have c: "CHR ''a'' \<noteq> CHR ''.''" by simp
  have d: "\<not> isdir fs_done ''/r/endpoints/a''" by code_simp
  have m: "join (dirname ''/r/endpoints/a'') ''.done'' = ''/r/endpoints/.done''" by code_simp
  have e: "path_exists fs_done ''/r/endpoints/.done''" by code_simp
  have n: "trace (conns (snd (notify 200 ''/r/endpoints/a'' Deleted None 200 hub_one)) 2) =
     [Sent (Message ''/endpoints/a'' 200)]" by code_simp
  from on_deleted_suppressed_iff_done_marker[OF b c d, of 200 hub_one]
  show ?thesis using m e n by simp
qed

subsection \<open>The protocol layer\<close>

text \<open>
  C8. On an open connection, a request body that \<^verbatim>\<open>json.loads\<close> rejects, a body that
  is no dictionary or has no \<^verbatim>\<open>topic\<close> member, a topic that cannot be a key, and a
  topic without a registered implementation each make \<^verbatim>\<open>on_message\<close> send one error
  frame with the text of the failure and then close the connection.
\<close>

theorem on_message_rejects:
  assumes "active c h"
  shows "(is_Exception e \<longrightarrow>
            error_then_closed now c (str_exn e) h (on_message fs dbs now c (Inl e) h)) \<and>
         (getitem_topic m1 = Inl e1 \<longrightarrow>
            error_then_closed now c (str_exn e1) h (on_message fs dbs now c (Inr m1) h)) \<and>
         (getitem_topic m2 = Inr t2 \<and> impl_get (impl h) t2 = Inl e2 \<longrightarrow>
            error_then_closed now c (str_exn e2) h (on_message fs dbs now c (Inr m2) h)) \<and>
         (getitem_topic m3 = Inr t3 \<and> impl_get (impl h) t3 = Inr None \<longrightarrow>
            error_then_closed now c (''Invalid topic: '' @ py_repr t3) h
              (on_message fs dbs now c (Inr m3) h))"
proof (intro conjI impI)
  assume "is_Exception e"
  then show "error_then_closed now c (str_exn e) h (on_message fs dbs now c (Inl e) h)"
    using assms by (simp add: on_message_def on_message_try_def error_then_closed_send)
next
  assume g: "getitem_topic m1 = Inl e1"
  have "is_Exception e1"
    using g
    by (cases m1) (auto simp: KeyError_def TypeError_def no_getitem_def split: option.splits)
  then show "error_then_closed now c (str_exn e1) h (on_message fs dbs now c (Inr m1) h)"
    using assms g by (simp add: on_message_def on_message_try_def error_then_closed_send)
next
  assume g: "getitem_topic m2 = Inr t2 \<and> impl_get (impl h) t2 = Inl e2"
  have "is_Exception e2"
    using g by (cases t2) (auto simp: TypeError_def unhashable_def)
  then show "error_then_closed now c (str_exn e2) h (on_message fs dbs now c (Inr m2) h)"
    using assms g by (simp add: on_message_def on_message_try_def error_then_closed_send)
next
  assume g: "getitem_topic m3 = Inr t3 \<and> impl_get (impl h) t3 = Inr None"
  then show "error_then_closed now c (''Invalid topic: '' @ py_repr t3) h
              (on_message fs dbs now c (Inr m3) h)"
    using assms
    by (simp add: on_message_def on_message_try_def send_error_msg_active error_then_closed_def)
qed

theorem on_message_rejects_witness:
  "error_then_closed 200 1 ''No JSON object could be decoded'' hub0
     (on_message fs_dup dbs_dup 200 1
        (Inl (StandardError ''ValueError'' ''No JSON object could be decoded'')) hub0) \<and>
   error_then_closed 200 1 (str_exn (KeyError ''topic'')) hub0
     (on_message fs_dup dbs_dup 200 1 (Inr (JObj [(''since'', JInt 5)])) hub0) \<and>
   error_then_closed 200 1 (str_exn (unhashable ''list'')) hub0
     (on_message fs_dup dbs_dup 200 1 (Inr (JObj [(''topic'', JList [])])) hub0) \<and>
   error_then_closed 200 1 (''Invalid topic: '' @ py_repr (JStr ''/nodes'')) hub0
     (on_message fs_dup dbs_dup 200 1 (Inr (JObj [(''topic'', JStr ''/nodes'')])) hub0)"
proof -
  have a: "active 1 hub0" by code_simp
  have h1: "is_Exception (StandardError ''ValueError'' ''No JSON object could be decoded'')"
    by simp
  have h2: "getitem_topic (JObj [(''since'', JInt 5)]) = Inl (KeyError ''topic'')"
    by simp
  have h3: "getitem_topic (JObj [(''topic'', JList [])]) = Inr (JList []) \<and>
            impl_get (impl hub0) (JList []) = Inl (unhashable ''list'')"
    by simp
  have h4: "getitem_topic (JObj [(''topic'', JStr ''/nodes'')]) = Inr (JStr ''/nodes'') \<and>
            impl_get (impl hub0) (JStr ''/nodes'') = Inr None"
    by (simp add: hub0_def)
  from on_message_rejects[OF a,
      where e = "StandardError ''ValueError'' ''No JSON object could be decoded''"
        and ?m1.0 = "JObj [(''since'', JInt 5)]" and ?e1.0 = "KeyError ''topic''"
        and ?m2.0 = "JObj [(''topic'', JList [])]" and ?t2.0 = "JList []"
        and ?e2.0 = "unhashable ''list''"
        and ?m3.0 = "JObj [(''topic'', JStr ''/nodes'')]" and ?t3.0 = "JStr ''/nodes''"
        and now = 200 and fs = fs_dup and dbs = dbs_dup]
  show ?thesis using h1 h2 h3 h4 by (simp add: TypeError_def)
qed

subsection \<open>A missing \<^verbatim>\<open>since\<close>\<close>

lemma sow_null: "sow fs dbs now d p JNull c i h = sow fs dbs now d p (JInt 0) c i h"
  by (simp add: sow_def)

lemma register_null:
  "register fs dbs now d p c i JNull h = register fs dbs now d p c i (JInt 0) h"
  by (simp add: register_def sow_null)

lemma register_all_null:
  "register_all fs dbs now c i JNull ps h = register_all fs dbs now c i (JInt 0) ps h"
  by (induction ps arbitrary: h) (auto simp: register_null split: prod.splits option.splits)

text \<open>
  With \<^verbatim>\<open>since = None\<close> the loop of \<^verbatim>\<open>_sow\<close> runs over the merge of the records
  that the scan and the query return for \<^verbatim>\<open>since = 0\<close>; the scan returns a record for
  exactly the regular files found whose \<^verbatim>\<open>st_mtime\<close> is not negative, the query the
  matching rows whose timestamp is not negative; and the loop publishes every record of
  a merge without repeated paths when the topic has a payload for each.
\<close>

lemma sow_unfold:
  "get_fs_sow (root h) fs directory pattern (JInt 0) = Inr fs_records \<Longrightarrow>
   get_db_sow dbs i h directory pattern (JInt 0) = Inr dbr \<Longrightarrow>
   sow fs dbs now directory pattern JNull handler i h =
     sow_loop now i handler None (heapq_merge dbr fs_records) h"
  by (simp add: sow_def get_db_sow_def)

lemma fs_items_admits:
  "fs_items n fs (JInt T) files = Inr items \<Longrightarrow>
   set items =
     {(py_int mt, drop n f, ct) | f mt ct.
        f \<in> set files \<and> map_of fs f = Some (File mt ct) \<and> of_int T \<le> mt}"
proof (induction files arbitrary: items)
  case Nil
  then show ?case by simp
next
  case (Cons f files)
  show ?case
  proof (cases "fs_items n fs (JInt T) files")
    case (Inl e)
    with Cons.prems show ?thesis
      by (auto split: sum.splits exn.splits if_splits)
  next
    case (Inr rest)
    then have r: "set rest =
      {(py_int mt, drop n f, ct) | f mt ct.
        f \<in> set files \<and> map_of fs f = Some (File mt ct) \<and> of_int T \<le> mt}"
      by (rule Cons.IH)
    show ?thesis
    proof (cases "map_of fs f")
      case None
      with Cons.prems Inr have "items = rest"
        by (simp add: os_stat_def ENOENT_def)
      with r None show ?thesis by auto
    next
      case (Some nd)
      show ?thesis
      proof (cases nd)
        case (Dir m)
        with Some Cons.prems show ?thesis
          by (simp add: os_stat_def open_read_def ENOENT_def EISDIR_def)
      next
        case (File m c)
        with Some Cons.prems Inr have
          "items = (if of_int T \<le> m then (py_int m, drop n f, c) # rest else rest)"
          by (auto simp add: os_stat_def open_read_def)
        with r Some File show ?thesis by auto
      qed
    qed
  qed
qed

lemma get_fs_sow_admits:
  "get_fs_sow rt fs directory pattern (JInt 0) = Inr fs_records \<Longrightarrow>
   set fs_records =
     {(py_int mt, drop (length rt) f, ct) | f mt ct.
        f \<in> set (glob fs (join directory pattern)) \<and> map_of fs f = Some (File mt ct) \<and> 0 \<le> mt}"
proof -
  assume a: "get_fs_sow rt fs directory pattern (JInt 0) = Inr fs_records"
  then obtain items where
    i: "fs_items (length rt) fs (JInt 0) (glob fs (join directory pattern)) = Inr items"
    and s: "fs_records = sort items"
    by (auto simp add: get_fs_sow_def split: sum.splits)
  from fs_items_admits[OF i] s show ?thesis by simp
qed

lemma get_db_sow_admits:
  "get_db_sow dbs i h directory pattern (JInt 0) = Inr dbr \<Longrightarrow>
   sow_db i = Some db \<Longrightarrow> db \<noteq> [] \<Longrightarrow> map_of dbs (join (root h) db) = Some table \<Longrightarrow>
   set dbr =
     {r \<in> set table.
        fnmatch (fst (snd r)) (join (drop (length (root h)) directory) pattern) \<and> 0 \<le> fst r}"
  by (auto simp add: get_db_sow_def sow_select_def)

lemma sow_loop_emits:
  "active c h \<Longrightarrow>
   list_all (\<lambda>r. on_event i (fst (snd r)) None (Some (snd (snd r))) = Inr (Some (pl r))) items \<Longrightarrow>
   distinct (map (\<lambda>r. fst (snd r)) items) \<Longrightarrow>
   prev \<notin> set (map (\<lambda>r. Some (fst (snd r))) items) \<Longrightarrow>
   fst (sow_loop now i c prev items h) = None \<and>
   trace (conns (snd (sow_loop now i c prev items h)) c) =
     trace (conns h c) @ map (\<lambda>r. Sent (Message (pl r) (of_int (fst r)))) items"
proof (induction items arbitrary: h prev)
  case Nil
  then show ?case by simp
next
  case (Cons item items)
  obtain w q ct where item: "item = (w, q, ct)" by (cases item) auto
  let ?h' = "log_event c (Sent (Message (pl item) (of_int w))) h"
  have ne: "Some q \<noteq> prev" using Cons.prems(4) item by auto
  have ev: "on_event i q None (Some ct) = Inr (Some (pl item))"
    using Cons.prems(2) item by simp
  have pb: "publish now i c (w, q, ct) h = (None, ?h')"
    using ev Cons.prems(1) by (simp add: publish_def deliver_def write_message_def)
  have st: "sow_loop now i c prev (item # items) h = sow_loop now i c (Some q) items ?h'"
    using item ne pb by simp
  have a': "active c ?h'" using Cons.prems(1) by simp
  have l': "list_all (\<lambda>r. on_event i (fst (snd r)) None (Some (snd (snd r))) = Inr (Some (pl r))) items"
    using Cons.prems(2) by simp
  have d': "distinct (map (\<lambda>r. fst (snd r)) items)" using Cons.prems(3) by simp
  have p': "Some q \<notin> set (map (\<lambda>r. Some (fst (snd r))) items)"
    using Cons.prems(3) item by auto
  from Cons.IH[OF a' l' d' p'] show ?case
    unfolding st using item by simp
qed


lemma on_message_since_null:
  assumes "map_of m ''since'' = None"
    and "list_all (\<lambda>(t, i). subscribe i ((''since'', JNull) # m) = subscribe i m) (impl h)"
  shows "on_message fs dbs now handler (Inr (JObj ((''since'', JNull) # m))) h =
         on_message fs dbs now handler (Inr (JObj m)) h"
proof -
  have sub: "subscribe j ((''since'', JNull) # m) = subscribe j m"
    if "impl_get (impl h) t = Inr (Some j)" for t j
  proof -
    from that obtain s where "t = JStr s" "map_of (impl h) s = Some j"
      by (cases t) auto
    then have "(s, j) \<in> set (impl h)" by (simp add: map_of_SomeD)
    with assms(2) show ?thesis by (auto simp: list_all_iff)
  qed
  show ?thesis
    using assms(1) sub
    by (auto simp: on_message_def on_message_try_def register_all_null
             split: sum.splits option.splits prod.splits)
qed

text \<open>
  C10, as stated. With \<^verbatim>\<open>since = None\<close> every record should be admitted by the test
  on the timestamp. The scan finds the file \<^verbatim>\<open>e\<close>, whose \<^verbatim>\<open>st_mtime\<close> is -5, and the
  database has a matching row for \<^verbatim>\<open>/endpoints/d\<close> at -7; the replay with
  \<^verbatim>\<open>since = None\<close> publishes neither, the replay with \<^verbatim>\<open>since = -10\<close> both.
\<close>

theorem since_null_drops_negative_timestamps:
  "glob fs_old ''/r/endpoints/*'' =
     [''/r/endpoints/a'', ''/r/endpoints/b'', ''/r/endpoints/e''] \<and>
   os_stat fs_old ''/r/endpoints/e'' = Inr (- 5) \<and>
   trace (conns (snd (register fs_old dbs_old 200 ''/endpoints'' ''*'' 1 topic_echo JNull hub0)) 1) =
     [Sent (Message ''/endpoints/c'' 50), Sent (Message ''/endpoints/b'' 70),
      Sent (Message ''/endpoints/a'' 100)] \<and>
   trace (conns (snd (register fs_old dbs_old 200 ''/endpoints'' ''*'' 1 topic_echo (JInt (- 10)) hub0)) 1) =
     [Sent (Message ''/endpoints/d'' (- 7)), Sent (Message ''/endpoints/e'' (- 5)),
      Sent (Message ''/endpoints/c'' 50), Sent (Message ''/endpoints/b'' 70),
      Sent (Message ''/endpoints/a'' 100)]"
  by code_simp

text \<open>
  C10, amended. A subscription whose \<^verbatim>\<open>since\<close> is \<^verbatim>\<open>None\<close> is replayed and registered
  as with \<^verbatim>\<open>since = 0\<close>, and a request that carries \<^verbatim>\<open>"since": null\<close> is handled as
  the same request without the member (when the topic's \<^verbatim>\<open>subscribe\<close> gives the same
  directories for both). The test on the timestamp then admits exactly the records
  whose time is not negative: when the scan and the query succeed, \<^verbatim>\<open>_sow\<close> runs its
  loop over their merge, the scan has a record for each regular file found with
  \<^verbatim>\<open>st_mtime >= 0\<close> and for no other, the query the matching rows with
  \<^verbatim>\<open>timestamp >= 0\<close> and no other, and on an open connection each record of a merge
  without repeated paths is sent as a frame, in merge order, when the topic has a
  payload for it.
\<close>

theorem since_null_replays_from_zero:
  "sow fs dbs now directory pattern JNull handler i h =
     sow fs dbs now directory pattern (JInt 0) handler i h \<and>
   register fs dbs now directory pattern handler i JNull h =
     register fs dbs now directory pattern handler i (JInt 0) h \<and>
   (map_of m ''since'' = None \<and>
    list_all (\<lambda>(t, i). subscribe i ((''since'', JNull) # m) = subscribe i m) (impl h) \<longrightarrow>
      on_message fs dbs now handler (Inr (JObj ((''since'', JNull) # m))) h =
      on_message fs dbs now handler (Inr (JObj m)) h) \<and>
   (get_fs_sow (root h) fs directory pattern (JInt 0) = Inr fs_records \<and>
    get_db_sow dbs i h directory pattern (JInt 0) = Inr dbr \<longrightarrow>
      sow fs dbs now directory pattern JNull handler i h =
        sow_loop now i handler None (heapq_merge dbr fs_records) h \<and>
      set fs_records =
        {(py_int mt, drop (length (root h)) f, ct) | f mt ct.
           f \<in> set (glob fs (join directory pattern)) \<and> map_of fs f = Some (File mt ct) \<and>
           0 \<le> mt} \<and>
      (sow_db i = Some db \<and> db \<noteq> [] \<and> map_of dbs (join (root h) db) = Some table \<longrightarrow>
         set dbr =
           {r \<in> set table.
              fnmatch (fst (snd r)) (join (drop (length (root h)) directory) pattern) \<and>
              0 \<le> fst r}) \<and>
      (active handler h \<and>
       list_all (\<lambda>r. on_event i (fst (snd r)) None (Some (snd (snd r))) = Inr (Some (pl r)))
         (heapq_merge dbr fs_records) \<and>
       distinct (map (\<lambda>r. fst (snd r)) (heapq_merge dbr fs_records)) \<longrightarrow>
         fst (sow fs dbs now directory pattern JNull handler i h) = None \<and>
         trace (conns (snd (sow fs dbs now directory pattern JNull handler i h)) handler) =
           trace (conns h handler) @
           map (\<lambda>r. Sent (Message (pl r) (of_int (fst r)))) (heapq_merge dbr fs_records)))"
proof (intro conjI impI)
  show "sow fs dbs now directory pattern JNull handler i h =
     sow fs dbs now directory pattern (JInt 0) handler i h"
    by (rule sow_null)
  show "register fs dbs now directory pattern handler i JNull h =
     register fs dbs now directory pattern handler i (JInt 0) h"
    by (rule register_null)
next
  assume "map_of m ''since'' = None \<and>
    list_all (\<lambda>(t, i). subscribe i ((''since'', JNull) # m) = subscribe i m) (impl h)"
  then show "on_message fs dbs now handler (Inr (JObj ((''since'', JNull) # m))) h =
      on_message fs dbs now handler (Inr (JObj m)) h"
    by (simp add: on_message_since_null)
next
  assume a: "get_fs_sow (root h) fs directory pattern (JInt 0) = Inr fs_records \<and>
    get_db_sow dbs i h directory pattern (JInt 0) = Inr dbr"
  then show u: "sow fs dbs now directory pattern JNull handler i h =
        sow_loop now i handler None (heapq_merge dbr fs_records) h"
    by (simp add: sow_unfold)
  from a show "set fs_records =
        {(py_int mt, drop (length (root h)) f, ct) | f mt ct.
           f \<in> set (glob fs (join directory pattern)) \<and> map_of fs f = Some (File mt ct) \<and>
           0 \<le> mt}"
    by (simp add: get_fs_sow_admits)
  {
    assume d: "sow_db i = Some db \<and> db \<noteq> [] \<and> map_of dbs (join (root h) db) = Some table"
    from get_db_sow_admits[of dbs i h directory pattern dbr db table] a d
    show "set dbr =
           {r \<in> set table.
              fnmatch (fst (snd r)) (join (drop (length (root h)) directory) pattern) \<and>
              0 \<le> fst r}"
      by blast
  }
  {
    assume e: "active handler h \<and>
       list_all (\<lambda>r. on_event i (fst (snd r)) None (Some (snd (snd r))) = Inr (Some (pl r)))
         (heapq_merge dbr fs_records) \<and>
       distinct (map (\<lambda>r. fst (snd r)) (heapq_merge dbr fs_records))"
    have n: "None \<notin> set (map (\<lambda>r. Some (fst (snd r))) (heapq_merge dbr fs_records))"
      by auto
    from e n have em:
      "fst (sow_loop now i handler None (heapq_merge dbr fs_records) h) = None \<and>
       trace (conns (snd (sow_loop now i handler None (heapq_merge dbr fs_records) h)) handler) =
         trace (conns h handler) @
         map (\<lambda>r. Sent (Message (pl r) (of_int (fst r)))) (heapq_merge dbr fs_records)"
      by (intro sow_loop_emits) simp_all
    from em show "fst (sow fs dbs now directory pattern JNull handler i h) = None"
      unfolding u by simp
    from em show "trace (conns (snd (sow fs dbs now directory pattern JNull handler i h)) handler) =
           trace (conns h handler) @
           map (\<lambda>r. Sent (Message (pl r) (of_int (fst r)))) (heapq_merge dbr fs_records)"
      unfolding u by simp
  }
qed

theorem since_null_replays_from_zero_witness:
  "on_message fs_old dbs_old 200 1
     (Inr (JObj [(''since'', JNull), (''topic'', JStr ''/endpoints'')])) hub0 =
   on_message fs_old dbs_old 200 1 (Inr (JObj [(''topic'', JStr ''/endpoints'')])) hub0 \<and>
   fst (sow fs_old dbs_old 200 ''/r/endpoints'' ''*'' JNull 1 topic_echo hub0) = None \<and>
   trace (conns (snd (sow fs_old dbs_old 200 ''/r/endpoints'' ''*'' JNull 1 topic_echo hub0)) 1) =
     [Sent (Message ''/endpoints/c'' 50), Sent (Message ''/endpoints/b'' 70),
      Sent (Message ''/endpoints/a'' 100)]"
proof -
  let ?fsr = "[(70, ''/endpoints/b'', ''z''), (100, ''/endpoints/a'', ''new'')] :: item list"
  let ?dbr = "[(50, ''/endpoints/c'', ''old'')] :: item list"
  have h1: "map_of [(''topic'', JStr ''/endpoints'')] ''since'' = None \<and>
    list_all (\<lambda>(t, i). subscribe i ((''since'', JNull) # [(''topic'', JStr ''/endpoints'')]) =
                         subscribe i [(''topic'', JStr ''/endpoints'')]) (impl hub0)"
    by (simp add: hub0_def topic_echo_def)
  have h2: "get_fs_sow (root hub0) fs_old ''/r/endpoints'' ''*'' (JInt 0) = Inr ?fsr \<and>
    get_db_sow dbs_old topic_echo hub0 ''/r/endpoints'' ''*'' (JInt 0) = Inr ?dbr"
    by code_simp
  have h3: "sow_db topic_echo = Some ''sow.db'' \<and> ''sow.db'' \<noteq> [] \<and>
    map_of dbs_old (join (root hub0) ''sow.db'') =
      Some [(50, ''/endpoints/c'', ''old''), (- 7, ''/endpoints/d'', ''older'')]"
    by code_simp
  have h4: "active 1 hub0 \<and>
       list_all (\<lambda>r. on_event topic_echo (fst (snd r)) None (Some (snd (snd r))) =
                       Inr (Some (fst (snd r))))
         (heapq_merge ?dbr ?fsr) \<and>
       distinct (map (\<lambda>r. fst (snd r)) (heapq_merge ?dbr ?fsr))"
    by code_simp
  have ev: "trace (conns hub0 1) @
      map (\<lambda>r. Sent (Message (fst (snd r)) (of_int (fst r)))) (heapq_merge ?dbr ?fsr) =
     [Sent (Message ''/endpoints/c'' 50), Sent (Message ''/endpoints/b'' 70),
      Sent (Message ''/endpoints/a'' 100)]"
    by code_simp
  note th = since_null_replays_from_zero[where m = "[(''topic'', JStr ''/endpoints'')]"
      and h = hub0 and fs = fs_old and dbs = dbs_old and now = 200 and handler = 1
      and directory = "''/r/endpoints''" and pattern = "''*''" and i = topic_echo
      and fs_records = ?fsr and dbr = ?dbr and db = "''sow.db''"
      and table = "[(50, ''/endpoints/c'', ''old''), (- 7, ''/endpoints/d'', ''older'')]"
      and pl = "\<lambda>r. fst (snd r)"]
  from th h1 h2 h3 h4 have
    "on_message fs_old dbs_old 200 1
       (Inr (JObj [(''since'', JNull), (''topic'', JStr ''/endpoints'')])) hub0 =
     on_message fs_old dbs_old 200 1 (Inr (JObj [(''topic'', JStr ''/endpoints'')])) hub0"
    and "fst (sow fs_old dbs_old 200 ''/r/endpoints'' ''*'' JNull 1 topic_echo hub0) = None"
    and "trace (conns (snd (sow fs_old dbs_old 200 ''/r/endpoints'' ''*'' JNull 1 topic_echo hub0)) 1) =
       trace (conns hub0 1) @
       map (\<lambda>r. Sent (Message (fst (snd r)) (of_int (fst r)))) (heapq_merge ?dbr ?fsr)"
    by blast+
  then show ?thesis unfolding ev by blast
qed

subsection \<open>What the bookkeeping functions change\<close>

lemma bucket_set_bucket [simp]:
  "bucket (set_bucket d b h) d' = (if d' = d then b else bucket h d')"
  by (simp add: bucket_def set_bucket_def update_conv')

lemma keys_set_bucket:
  "map fst (handlers (set_bucket d b h)) =
     (if d \<in> set (map fst (handlers h)) then map fst (handlers h)
      else map fst (handlers h) @ [d])"
  by (simp add: set_bucket_def update_keys)

lemma set_bucket_fields [simp]:
  "watcher (set_bucket d b h) = watcher h"
  "conns (set_bucket d b h) = conns h"
  "root (set_bucket d b h) = root h"
  "impl (set_bucket d b h) = impl h"
  "active c (set_bucket d b h) = active c h"
  by (simp_all add: set_bucket_def active_def)

lemma remove_dir_fields [simp]:
  "watcher (remove_dir d h) = removeAll d (watcher h)"
  "handlers (remove_dir d h) = handlers h"
  "conns (remove_dir d h) = conns h"
  "root (remove_dir d h) = root h"
  "impl (remove_dir d h) = impl h"
  "bucket (remove_dir d h) d' = bucket h d'"
  "active c (remove_dir d h) = active c h"
  by (simp_all add: remove_dir_def active_def bucket_def)

lemma add_dir_fields [simp]:
  "watcher (add_dir d h) = watcher h @ [d]"
  "handlers (add_dir d h) = handlers h"
  "conns (add_dir d h) = conns h"
  "root (add_dir d h) = root h"
  "impl (add_dir d h) = impl h"
  "bucket (add_dir d h) d' = bucket h d'"
  "active c (add_dir d h) = active c h"
  by (simp_all add: add_dir_def active_def bucket_def)

lemma touch_fields [simp]:
  "watcher (touch d h) = watcher h"
  "conns (touch d h) = conns h"
  "root (touch d h) = root h"
  "impl (touch d h) = impl h"
  "bucket (touch d h) d' = bucket h d'"
  "active c (touch d h) = active c h"
  by (auto simp add: touch_def active_def bucket_def map_add_def split: option.splits)

lemma bucket_nonempty_key: "bucket h d \<noteq> [] \<Longrightarrow> d \<in> set (map fst (handlers h))"
  by (auto simp: bucket_def split: option.splits dest: map_of_SomeD intro: rev_image_eqI)

subsection \<open>Garbage collection\<close>

lemma gc_loop_conns [simp]: "conns (gc_loop ds h) = conns h"
  by (induction ds arbitrary: h) (simp_all add: Let_def)

lemma gc_loop_active [simp]: "active c (gc_loop ds h) = active c h"
  by (simp add: active_def)

lemma gc_loop_keys:
  "set ds \<subseteq> set (map fst (handlers h)) \<Longrightarrow>
   map fst (handlers (gc_loop ds h)) = map fst (handlers h)"
proof (induction ds arbitrary: h)
  case Nil
  then show ?case by simp
next
  case (Cons d ds)
  let ?hs = "filter (\<lambda>(pattern, handler, i). active handler h) (bucket h d)"
  let ?h1 = "if ?hs = [] then remove_dir d h else h"
  have k: "map fst (handlers (set_bucket d ?hs ?h1)) = map fst (handlers h)"
    using Cons.prems by (simp add: keys_set_bucket)
  then have "set ds \<subseteq> set (map fst (handlers (set_bucket d ?hs ?h1)))"
    using Cons.prems by simp
  from Cons.IH[OF this] k show ?case by (simp add: Let_def)
qed

lemma gc_loop_bucket:
  "bucket (gc_loop ds h) d =
     (if d \<in> set ds then filter (\<lambda>(pattern, handler, i). active handler h) (bucket h d)
      else bucket h d)"
proof (induction ds arbitrary: h)
  case Nil
  then show ?case by simp
next
  case (Cons a ds)
  show ?case by (simp add: Let_def Cons.IH)
qed

lemma gc_loop_watcher:
  "watcher (gc_loop ds h) =
     filter (\<lambda>d. \<not> (d \<in> set ds \<and>
                     filter (\<lambda>(pattern, handler, i). active handler h) (bucket h d) = []))
       (watcher h)"
proof (induction ds arbitrary: h)
  case Nil
  then show ?case by simp
next
  case (Cons a ds)
  show ?case
    by (auto simp add: Let_def Cons.IH removeAll_filter_not_eq intro!: filter_cong)
qed

text \<open>
  C2, as stated. \<^verbatim>\<open>_gc\<close> should remove a directory from the watcher and from the
  bucket map when all its subscriptions are dead. The directory \<^verbatim>\<open>/r/endpoints\<close> has
  one subscription, of connection 2, which is dead; after \<^verbatim>\<open>_gc\<close> the watcher has
  dropped the directory, but the bucket map still has it as a key:
  \<^verbatim>\<open>self.handlers[directory] = handlers\<close> stores the empty list.
\<close>

theorem gc_keeps_directory_key:
  "map (fst \<circ> snd) (bucket hub_dead ''/r/endpoints'') = [2] \<and> \<not> active 2 hub_dead \<and>
   watcher (gc hub_dead) = [] \<and>
   map fst (handlers (gc hub_dead)) = [''/r/endpoints'']"
  by code_simp

text \<open>
  C2, amended. \<^verbatim>\<open>_gc\<close> leaves the connections and the keys of the bucket map as they
  are; the bucket of every directory becomes the list of its subscriptions whose
  connection is live, in their order; and the watcher loses exactly the directories of
  the bucket map none of whose subscriptions is live.
\<close>

theorem gc_effect:
  "conns (gc h) = conns h \<and>
   map fst (handlers (gc h)) = map fst (handlers h) \<and>
   bucket (gc h) d = filter (\<lambda>(pattern, handler, i). active handler h) (bucket h d) \<and>
   watcher (gc h) =
     filter (\<lambda>d. \<not> (d \<in> set (map fst (handlers h)) \<and>
                     filter (\<lambda>(pattern, handler, i). active handler h) (bucket h d) = []))
       (watcher h)"
proof (intro conjI)
  show "bucket (gc h) d = filter (\<lambda>(pattern, handler, i). active handler h) (bucket h d)"
  proof (cases "d \<in> set (map fst (handlers h))")
    case True
    then show ?thesis by (simp add: gc_def gc_loop_bucket)
  next
    case False
    then have "bucket h d = []" using bucket_nonempty_key by blast
    with False show ?thesis by (simp add: gc_def gc_loop_bucket)
  qed
qed (simp_all add: gc_def gc_loop_keys gc_loop_watcher)

theorem gc_effect_witness:
  "bucket (gc hub_dead) ''/r/endpoints'' = [] \<and> watcher (gc hub_dead) = [] \<and>
   map (fst \<circ> snd) (bucket (gc hub_one) ''/r/endpoints'') = [2] \<and>
   watcher (gc hub_one) = [''/r/endpoints'']"
proof -
  have d: "filter (\<lambda>(pattern, handler, i). active handler hub_dead)
             (bucket hub_dead ''/r/endpoints'') = []"
    by (simp add: hub_dead_def hub_one_def hub0_def connection_lost_def bucket_def active_def)
  have l: "filter (\<lambda>(pattern, handler, i). active handler hub_one)
             (bucket hub_one ''/r/endpoints'') = [(''*'', 2, topic_echo)]"
    by (simp add: hub_one_def hub0_def bucket_def active_def fresh_conn_def)
  have kd: "map fst (handlers hub_dead) = [''/r/endpoints'']"
    by (simp add: hub_dead_def hub_one_def hub0_def connection_lost_def)
  have wd: "watcher hub_dead = [''/r/endpoints'']"
    by (simp add: hub_dead_def hub_one_def hub0_def connection_lost_def)
  have ko: "map fst (handlers hub_one) = [''/r/endpoints'']"
    by (simp add: hub_one_def hub0_def)
  have wo: "watcher hub_one = [''/r/endpoints'']"
    by (simp add: hub_one_def hub0_def)
  from gc_effect[of hub_dead "''/r/endpoints''"] gc_effect[of hub_one "''/r/endpoints''"]
  show ?thesis by (simp add: d l kd wd ko wo)
qed

subsection \<open>Registrations in the watcher\<close>

lemma same_books_refl [simp]: "same_books h h"
  by (simp add: same_books_def)

lemma same_books_trans: "same_books h h' \<Longrightarrow> same_books h' h'' \<Longrightarrow> same_books h h''"
  by (simp add: same_books_def)

lemma same_books_bucket: "same_books h h' \<Longrightarrow> bucket h' d = bucket h d"
  by (simp add: same_books_def bucket_def)

lemma same_books_log_event [simp]: "same_books h (log_event c e h)"
  by (simp add: same_books_def log_event_def)

lemma same_books_close [simp]: "same_books h (close c h)"
  by (simp add: same_books_def close_def log_event_def)

lemma same_books_write_message: "same_books h (snd (write_message c f h))"
  by (simp add: write_message_def)

lemma same_books_send_error_msg: "same_books h (snd (send_error_msg now c txt cl h))"
  by (auto simp add: send_error_msg_def write_message_def split: prod.splits option.splits
           intro: same_books_trans[OF same_books_log_event same_books_close])

lemma same_books_deliver: "same_books h (snd (deliver i c p operation content when h))"
  by (auto simp add: deliver_def write_message_def split: sum.splits option.splits)

lemma same_books_publish: "same_books h (snd (publish now i c item h))"
proof -
  obtain w p content where item: "item = (w, p, content)" by (cases item) auto
  obtain r h' where d: "deliver i c p None (Some content) (of_int w) h = (r, h')"
    by (cases "deliver i c p None (Some content) (of_int w) h") auto
  then have 1: "same_books h h'" using same_books_deliver[of h i c p None "Some content" "of_int w"] by simp
  show ?thesis
    using item d 1 same_books_trans[OF 1 same_books_send_error_msg]
    by (auto simp add: publish_def split: option.splits)
qed

lemma same_books_sow_loop: "same_books h (snd (sow_loop now i c prev items h))"
proof (induction items arbitrary: h prev)
  case Nil
  then show ?case by simp
next
  case (Cons item items)
  obtain w p content where item: "item = (w, p, content)" by (cases item) auto
  obtain r h' where pb: "publish now i c (w, p, content) h = (r, h')"
    by (cases "publish now i c (w, p, content) h") auto
  then have 1: "same_books h h'" using same_books_publish[of h now i c "(w, p, content)"] by simp
  show ?case
    using item pb 1 Cons.IH same_books_trans[OF 1 Cons.IH]
    by (auto split: option.splits)
qed

lemma same_books_sow: "same_books h (snd (sow fs dbs now d p since c i h))"
  unfolding sow_def Let_def
  by (simp add: same_books_sow_loop split: sum.split option.split)

lemma register_books:
  "watcher (snd (register fs dbs now directory pattern c i since h)) =
     (if bucket h (realpath (join (root h) (lstrip_slash directory))) = []
      then watcher h @ [realpath (join (root h) (lstrip_slash directory))] else watcher h)"
  "bucket (snd (register fs dbs now directory pattern c i since h)) d =
     (if d = realpath (join (root h) (lstrip_slash directory))
      then bucket h d @ [(pattern, c, i)] else bucket h d)"
proof -
  let ?np = "realpath (join (root h) (lstrip_slash directory))"
  let ?h1 = "touch ?np h"
  let ?h2 = "if bucket ?h1 ?np = [] then add_dir ?np ?h1 else ?h1"
  let ?h3 = "set_bucket ?np (bucket ?h2 ?np @ [(pattern, c, i)]) ?h2"
  have r: "register fs dbs now directory pattern c i since h = sow fs dbs now ?np pattern since c i ?h3"
    by (simp add: register_def Let_def)
  have sb: "same_books ?h3 (snd (register fs dbs now directory pattern c i since h))"
    unfolding r by (rule same_books_sow)
  then have w: "watcher (snd (register fs dbs now directory pattern c i since h)) = watcher ?h3"
    by (simp add: same_books_def)
  show "watcher (snd (register fs dbs now directory pattern c i since h)) =
     (if bucket h ?np = [] then watcher h @ [?np] else watcher h)"
    unfolding w by simp
  show "bucket (snd (register fs dbs now directory pattern c i since h)) d =
     (if d = ?np then bucket h d @ [(pattern, c, i)] else bucket h d)"
    unfolding same_books_bucket[OF sb] by simp
qed

lemma watch_inv_register:
  assumes "watch_inv h"
  shows "watch_inv (snd (register fs dbs now directory pattern c i since h))"
proof -
  let ?np = "realpath (join (root h) (lstrip_slash directory))"
  have fresh: "bucket h ?np = [] \<Longrightarrow> ?np \<notin> set (watcher h)"
    using assms by (auto simp: watch_inv_def list_all_iff)
  show ?thesis
    using assms fresh
    by (auto simp add: watch_inv_def register_books list_all_iff)
qed

lemma gc_bucket:
  "bucket (gc h) d = filter (\<lambda>(pattern, handler, i). active handler h) (bucket h d)"
proof (cases "d \<in> set (map fst (handlers h))")
  case True
  then show ?thesis by (simp add: gc_def gc_loop_bucket)
next
  case False
  then have "bucket h d = []" using bucket_nonempty_key by blast
  with False show ?thesis by (simp add: gc_def gc_loop_bucket)
qed

lemma gc_watcher:
  "watcher (gc h) =
     filter (\<lambda>d. \<not> (d \<in> set (map fst (handlers h)) \<and>
                     filter (\<lambda>(pattern, handler, i). active handler h) (bucket h d) = []))
       (watcher h)"
  by (simp add: gc_def gc_loop_watcher)

lemma watch_inv_gc:
  assumes "watch_inv h"
  shows "watch_inv (gc h)"
proof -
  show ?thesis
    using assms bucket_nonempty_key[of h]
    by (auto simp add: watch_inv_def gc_watcher gc_bucket list_all_iff)
qed

lemma watch_inv_lost: "watch_inv h \<Longrightarrow> watch_inv (connection_lost c h)"
  by (simp add: watch_inv_def connection_lost_def bucket_def)

lemma watch_inv_run: "watch_inv h \<Longrightarrow> watch_inv (run acts h)"
proof (induction acts arbitrary: h)
  case Nil
  then show ?case by simp
next
  case (Cons a acts)
  have "watch_inv (step a h)"
    using Cons.prems by (cases a) (simp_all add: watch_inv_register watch_inv_gc watch_inv_lost)
  then show ?case using Cons.IH by simp
qed

text \<open>
  C3. A hub starts with an empty bucket map and an empty watcher. After any sequence of
  calls of \<^verbatim>\<open>register\<close> and passes of \<^verbatim>\<open>_gc\<close>, with connections dying in between,
  the watcher holds no directory twice; and a call of \<^verbatim>\<open>register\<close> for a directory
  whose bucket is not empty leaves the watcher as it is.
\<close>

theorem watcher_holds_directory_once:
  assumes "handlers h0 = []" and "watcher h0 = []"
  shows "distinct (watcher (run acts h0)) \<and>
         (bucket h (realpath (join (root h) (lstrip_slash directory))) \<noteq> [] \<longrightarrow>
            watcher (snd (register fs dbs now directory pattern c i since h)) = watcher h)"
proof -
  have "watch_inv h0" using assms by (simp add: watch_inv_def)
  then have "watch_inv (run acts h0)" by (rule watch_inv_run)
  then show ?thesis by (simp add: watch_inv_def register_books)
qed

theorem watcher_holds_directory_once_witness:
  "distinct (watcher (run [Register fs_dup dbs_dup 200 ''/endpoints'' ''*'' 1 topic_echo (JInt 0),
                           Register fs_dup dbs_dup 201 ''/endpoints/'' ''a'' 2 topic_echo JNull,
                           Lost 1, Lost 2, Gc,
                           Register fs_dup dbs_dup 300 ''endpoints'' ''*'' 3 topic_echo (JInt 0)]
                      hub0)) \<and>
   watcher (snd (register fs_dup dbs_dup 200 ''/endpoints'' ''b'' 3 topic_echo (JInt 0) hub_one)) =
     watcher hub_one"
proof -
  have a: "handlers hub0 = []" and b: "watcher hub0 = []"
    by (simp_all add: hub0_def)
  have rp: "realpath (join (root hub_one) (lstrip_slash ''/endpoints'')) = ''/r/endpoints''"
    by code_simp
  have ne: "bucket hub_one (realpath (join (root hub_one) (lstrip_slash ''/endpoints''))) \<noteq> []"
    unfolding rp by (simp add: hub_one_def hub0_def bucket_def)
  from watcher_holds_directory_once[OF a b, where h = hub_one and directory = "''/endpoints''"]
  show ?thesis using ne by blast
qed

subsection \<open>Snapshot requests\<close>

lemma extends_conns: "conns h' = conns h \<Longrightarrow> extends c h h'"
  by (auto simp add: extends_def active_def intro: exI[of _ "[]"])

lemma extends_refl [simp]: "extends c h h"
  by (simp add: extends_conns)































end
